theory Spec2Isabelle
  imports Main
begin

section \<open>Data model\<close>

text \<open>
  A JavaScript \<^verbatim>\<open>Error\<close> carries its message. Every \<^verbatim>\<open>throw\<close> and every
  rejected promise of the source is the \<open>Inl\<close> branch of a sum.
\<close>

datatype error = Error string

datatype signing_method = Extension | Nsec

text \<open>
  The query filter literal \<^verbatim>\<open>{ kinds: [10063], authors: [pubkey], limit: 1 }\<close>.
\<close>

record nostr_filter =
  kinds :: "nat list"
  authors :: "string list"
  limit :: nat

text \<open>
  Relay events. The service reads the field \<^verbatim>\<open>created_at\<close> and hands the event on
  to the parser; the remaining fields are those of a Nostr event (kind, tags, content,
  author, and for a signed event its id, here \<open>event_id\<close>, and signature).
\<close>

record unsigned_event =
  kind :: nat
  tags :: "string list list"
  content :: string
  created_at :: int
  author :: string

record event = unsigned_event +
  event_id :: string
  sig :: string

text \<open>
  \<^verbatim>\<open>UserServerList\<close>: the fields the service reads are \<^verbatim>\<open>servers\<close> (ordered) and
  \<^verbatim>\<open>pubkey\<close>.
\<close>

record UserServerList =
  servers :: "string list"
  pubkey :: string

text \<open>
  The owner's relay list: \<^verbatim>\<open>relays\<close> is an object keyed by relay URL, enumerated by
  \<^verbatim>\<open>Object.keys\<close> / \<^verbatim>\<open>Object.entries\<close> in insertion order, hence an association
  list. The only metadata field the service reads is \<^verbatim>\<open>write\<close> (here \<open>write_flag\<close>), compared with
  \<^verbatim>\<open>!== false\<close>; \<open>None\<close> stands for a flag that is absent (\<^verbatim>\<open>undefined\<close>).
\<close>

record relay_metadata =
  write_flag :: "bool option"

record UserRelayList =
  relays :: "(string \<times> relay_metadata) list"

section \<open>Collaborators and the record of their calls\<close>

text \<open>
  The functions imported from \<^verbatim>\<open>../utils/serverList\<close> and \<^verbatim>\<open>../utils/nostr\<close> are
  parameters of the model. The asynchronous ones read and change an outside world of
  type \<open>'w\<close> (relays, the signer), so that two calls need not answer alike; each may
  reject, which is \<open>Inl\<close>. \<^verbatim>\<open>validateServerUrl(url).valid\<close> is the boolean the service
  reads from the validator's result.
\<close>

record 'w deps =
  validateServerUrl :: "string \<Rightarrow> bool"
  createServerListEvent :: "string list \<Rightarrow> string \<Rightarrow> 'w \<Rightarrow> (error + unsigned_event) \<times> 'w"
  parseServerListEvent :: "event \<Rightarrow> error + UserServerList"
  signEventWithMethod :: "unsigned_event \<Rightarrow> signing_method \<Rightarrow> 'w \<Rightarrow> (error + event) \<times> 'w"
  queryRelays :: "string list \<Rightarrow> nostr_filter \<Rightarrow> 'w \<Rightarrow> (error + event list) \<times> 'w"
  publishToRelays :: "string list \<Rightarrow> event \<Rightarrow> 'w \<Rightarrow> (error + unit) \<times> 'w"
  getUserRelayList :: "string \<Rightarrow> 'w \<Rightarrow> (error + UserRelayList option) \<times> 'w"

text \<open>
  The asynchronous collaborator calls, in the order the service awaits them, each with
  the outcome it settled with.
\<close>

datatype call =
    QueryRelays "string list" nostr_filter "error + event list"
  | GetUserRelayList string "error + UserRelayList option"
  | CreateServerListEvent "string list" string "error + unsigned_event"
  | SignEventWithMethod unsigned_event signing_method "error + event"
  | PublishToRelays "string list" event "error + unit"

record 'w run =
  world :: 'w
  calls :: "call list"

definition await :: "('w \<Rightarrow> 'a \<times> 'w) \<Rightarrow> ('a \<Rightarrow> call) \<Rightarrow> 'w run \<Rightarrow> 'a \<times> 'w run" where
  "await f c r =
     (case f (world r) of
        (res, w') \<Rightarrow> (res, \<lparr>world = w', calls = calls r @ [c res]\<rparr>))"

section \<open>The service \<^verbatim>\<open>ServerListService\<close>\<close>

record ServerListService =
  priv_defaultRelayUrls :: "string list"
  priv_publishRelayUrls :: "string list"

text \<open>The singleton \<^verbatim>\<open>serverListService = new ServerListService()\<close>.\<close>

definition serverListService :: ServerListService where
  "serverListService =
     \<lparr>priv_defaultRelayUrls =
        [''wss://relay.damus.io'', ''wss://relay.nostr.band'', ''wss://relay.primal.net'',
         ''wss://relay.snort.social'', ''wss://nos.lol'', ''wss://nostr.oxtr.dev''],
      priv_publishRelayUrls = []\<rparr>"

definition defaultRelayUrls :: "ServerListService \<Rightarrow> string list" where
  "defaultRelayUrls this = priv_defaultRelayUrls this"

definition publishRelayUrls :: "ServerListService \<Rightarrow> string list" where
  "publishRelayUrls this =
     (if length (priv_publishRelayUrls this) > 0 then priv_publishRelayUrls this
      else priv_defaultRelayUrls this)"

definition setPublishRelayUrls :: "string list \<Rightarrow> ServerListService \<Rightarrow> ServerListService" where
  "setPublishRelayUrls urls this = this\<lparr>priv_publishRelayUrls := urls\<rparr>"

definition setDefaultRelayUrls :: "string list \<Rightarrow> ServerListService \<Rightarrow> ServerListService" where
  "setDefaultRelayUrls urls this = this\<lparr>priv_defaultRelayUrls := urls\<rparr>"

definition server_list_filter :: "string \<Rightarrow> nostr_filter" where
  "server_list_filter pk = \<lparr>kinds = [10063], authors = [pk], limit = 1\<rparr>"

text \<open>
  \<^verbatim>\<open>events.sort((a, b) => b.created_at - a.created_at)\<close>: the array sort is stable, so
  the result is ordered by descending \<^verbatim>\<open>created_at\<close> with ties in their order of
  arrival, which is what the stable insertion sort on the negated key computes.
\<close>

definition sort_newest_first :: "event list \<Rightarrow> event list" where
  "sort_newest_first events = sort_key (\<lambda>e. - created_at e) events"

text \<open>
  \<^verbatim>\<open>getUserServerList\<close>. The whole body is inside \<^verbatim>\<open>try\<close>; the handler returns
  \<^verbatim>\<open>null\<close>, so every rejection of a collaborator ends in \<open>None\<close>.
\<close>

definition getUserServerList ::
  "'w deps \<Rightarrow> ServerListService \<Rightarrow> string \<Rightarrow> 'w run \<Rightarrow> UserServerList option \<times> 'w run" where
  "getUserServerList d this pk r =
     (case await (queryRelays d (priv_defaultRelayUrls this) (server_list_filter pk))
             (QueryRelays (priv_defaultRelayUrls this) (server_list_filter pk)) r of
        (Inl err, r1) \<Rightarrow> (None, r1)
      | (Inr events, r1) \<Rightarrow>
          (case (if length events = 0 then
                   (case await (getUserRelayList d pk) (GetUserRelayList pk) r1 of
                      (Inl err, r2) \<Rightarrow> (Inl err, r2)
                    | (Inr None, r2) \<Rightarrow> (Inr events, r2)
                    | (Inr (Some userRelayList), r2) \<Rightarrow>
                        await (queryRelays d (map fst (relays userRelayList)) (server_list_filter pk))
                          (QueryRelays (map fst (relays userRelayList)) (server_list_filter pk)) r2)
                 else (Inr events, r1)) of
             (Inl err, r3) \<Rightarrow> (None, r3)
           | (Inr events', r3) \<Rightarrow>
               if length events' = 0 then (None, r3)
               else (case parseServerListEvent d (hd (sort_newest_first events')) of
                       Inl err \<Rightarrow> (None, r3)
                     | Inr l \<Rightarrow> (Some l, r3))))"

text \<open>\<^verbatim>\<open>publishEvent\<close>: publishes to the getter \<^verbatim>\<open>publishRelayUrls\<close>; a failure is rethrown.\<close>

definition publishEvent ::
  "'w deps \<Rightarrow> ServerListService \<Rightarrow> event \<Rightarrow> 'w run \<Rightarrow> (error + unit) \<times> 'w run" where
  "publishEvent d this ev r =
     await (publishToRelays d (publishRelayUrls this) ev)
       (PublishToRelays (publishRelayUrls this) ev) r"

text \<open>
  \<^verbatim>\<open>createAndPublishServerList\<close>: filter the valid URLs, throw when none is left,
  otherwise create the event, sign it, publish it, and return the parsed signed event.
  The \<^verbatim>\<open>catch\<close> block rethrows.
\<close>

definition createAndPublishServerList ::
  "'w deps \<Rightarrow> ServerListService \<Rightarrow> string list \<Rightarrow> string \<Rightarrow> signing_method \<Rightarrow> 'w run
     \<Rightarrow> (error + UserServerList) \<times> 'w run" where
  "createAndPublishServerList d this srvs pk signingMethod r =
     (let validServers = filter (validateServerUrl d) srvs in
      if length validServers = 0 then (Inl (Error ''No valid server URLs provided''), r)
      else
        (case await (createServerListEvent d validServers pk)
                (CreateServerListEvent validServers pk) r of
           (Inl err, r1) \<Rightarrow> (Inl err, r1)
         | (Inr unsignedEvent, r1) \<Rightarrow>
             (case await (signEventWithMethod d unsignedEvent signingMethod)
                     (SignEventWithMethod unsignedEvent signingMethod) r1 of
                (Inl err, r2) \<Rightarrow> (Inl err, r2)
              | (Inr signedEvent, r2) \<Rightarrow>
                  (case publishEvent d this signedEvent r2 of
                     (Inl err, r3) \<Rightarrow> (Inl err, r3)
                   | (Inr u, r3) \<Rightarrow> (parseServerListEvent d signedEvent, r3)))))"

definition updateServerList ::
  "'w deps \<Rightarrow> ServerListService \<Rightarrow> string list \<Rightarrow> string \<Rightarrow> signing_method \<Rightarrow> 'w run
     \<Rightarrow> (error + UserServerList) \<times> 'w run" where
  "updateServerList d this srvs pk signingMethod r =
     createAndPublishServerList d this srvs pk signingMethod r"

definition addServer ::
  "'w deps \<Rightarrow> ServerListService \<Rightarrow> string \<Rightarrow> UserServerList \<Rightarrow> signing_method \<Rightarrow> 'w run
     \<Rightarrow> (error + UserServerList) \<times> 'w run" where
  "addServer d this serverUrl currentList signingMethod r =
     (if \<not> validateServerUrl d serverUrl then (Inl (Error ''Invalid server URL''), r)
      else if serverUrl \<in> set (servers currentList) then
        (Inl (Error ''Server already in list''), r)
      else
        (let updatedServers = servers currentList @ [serverUrl] in
         updateServerList d this updatedServers (pubkey currentList) signingMethod r))"

definition removeServer ::
  "'w deps \<Rightarrow> ServerListService \<Rightarrow> string \<Rightarrow> UserServerList \<Rightarrow> signing_method \<Rightarrow> 'w run
     \<Rightarrow> (error + UserServerList) \<times> 'w run" where
  "removeServer d this serverUrl currentList signingMethod r =
     (let updatedServers = filter (\<lambda>url. url \<noteq> serverUrl) (servers currentList) in
      updateServerList d this updatedServers (pubkey currentList) signingMethod r)"

text \<open>
  The filtering step of \<^verbatim>\<open>reorderServers\<close>:
  \<^verbatim>\<open>newOrder.filter(url => currentList.servers.includes(url) && validateServerUrl(url).valid)\<close>.
\<close>

definition reorder_validServers :: "'w deps \<Rightarrow> string list \<Rightarrow> UserServerList \<Rightarrow> string list" where
  "reorder_validServers d newOrder currentList =
     filter (\<lambda>url. url \<in> set (servers currentList) \<and> validateServerUrl d url) newOrder"

definition reorderServers ::
  "'w deps \<Rightarrow> ServerListService \<Rightarrow> string list \<Rightarrow> UserServerList \<Rightarrow> signing_method \<Rightarrow> 'w run
     \<Rightarrow> (error + UserServerList) \<times> 'w run" where
  "reorderServers d this newOrder currentList signingMethod r =
     (let validServers = reorder_validServers d newOrder currentList in
      updateServerList d this validServers (pubkey currentList) signingMethod r)"

text \<open>
  The relays that \<^verbatim>\<open>setPublishRelaysFromUserList\<close> derives from the owner's list:
  \<^verbatim>\<open>Object.entries(userRelayList.relays).filter(([, metadata]) => metadata.write !== false).map(([url]) => url)\<close>.
\<close>

definition writeRelays :: "UserRelayList \<Rightarrow> string list" where
  "writeRelays userRelayList =
     map fst (filter (\<lambda>(url, metadata). write_flag metadata \<noteq> Some False)
                (relays userRelayList))"

text \<open>
  \<^verbatim>\<open>setPublishRelaysFromUserList\<close> changes the service's publish relays, so it returns
  the updated service beside its boolean. A rejected lookup is caught and gives
  \<^verbatim>\<open>false\<close>.
\<close>

definition setPublishRelaysFromUserList ::
  "'w deps \<Rightarrow> ServerListService \<Rightarrow> string \<Rightarrow> 'w run \<Rightarrow> (bool \<times> ServerListService) \<times> 'w run" where
  "setPublishRelaysFromUserList d this pk r =
     (case await (getUserRelayList d pk) (GetUserRelayList pk) r of
        (Inl err, r1) \<Rightarrow> ((False, this), r1)
      | (Inr None, r1) \<Rightarrow> ((False, this), r1)
      | (Inr (Some userRelayList), r1) \<Rightarrow>
          if length (writeRelays userRelayList) > 0
          then ((True, setPublishRelayUrls (writeRelays userRelayList) this), r1)
          else ((False, this), r1))"

section \<open>Assumptions on the collaborators\<close>

text \<open>
  Signing, event construction, publishing and parsing are outside the service. The
  statements about the list operations are made for collaborators that do not reject
  (\<open>collaborators_succeed\<close>) and whose parser reads back the server sequence that the
  event was created from (\<open>parse_reads_servers\<close>).
\<close>

definition collaborators_succeed :: "'w deps \<Rightarrow> bool" where
  "collaborators_succeed d \<longleftrightarrow>
     (\<forall>vs pk w. \<not> isl (fst (createServerListEvent d vs pk w))) \<and>
     (\<forall>ue m w. \<not> isl (fst (signEventWithMethod d ue m w))) \<and>
     (\<forall>rs e w. \<not> isl (fst (publishToRelays d rs e w))) \<and>
     (\<forall>e. \<not> isl (parseServerListEvent d e))"

definition parse_reads_servers :: "'w deps \<Rightarrow> bool" where
  "parse_reads_servers d \<longleftrightarrow>
     (\<forall>vs pk w ue m w' e l.
        fst (createServerListEvent d vs pk w) = Inr ue \<longrightarrow>
        fst (signEventWithMethod d ue m w') = Inr e \<longrightarrow>
        parseServerListEvent d e = Inr l \<longrightarrow> servers l = vs)"

section \<open>A concrete set of collaborators\<close>

text \<open>
  Modelled from the spec: \<^verbatim>\<open>validateServerUrl\<close> is not among the sources; the spec
  says that validation "rejects malformed URLs and non-secure schemes". The instance
  below accepts a URL that starts with \<^verbatim>\<open>https://\<close>, has something after it and
  contains no blank.
\<close>

definition validateServerUrl_spec :: "string \<Rightarrow> bool" where
  "validateServerUrl_spec url \<longleftrightarrow>
     take 8 url = ''https://'' \<and> 8 < length url \<and> CHR '' '' \<notin> set url"

text \<open>
  Modelled from the spec: \<^verbatim>\<open>createServerListEvent\<close> and \<^verbatim>\<open>parseServerListEvent\<close>
  are not among the sources; the spec describes the persisted list as "a single
  replaceable signed record per owner, whose payload is the ordered server URL
  sequence". The instance stores one \<^verbatim>\<open>server\<close> tag per URL, in order, in an event
  of kind 10063, and the parser reads the tags back. The world is a clock.
\<close>

definition createServerListEvent_spec ::
  "string list \<Rightarrow> string \<Rightarrow> nat \<Rightarrow> (error + unsigned_event) \<times> nat" where
  "createServerListEvent_spec vs pk w =
     (Inr \<lparr>kind = 10063, tags = map (\<lambda>url. [''server'', url]) vs, content = [],
           created_at = int w, author = pk\<rparr>, w)"

fun server_of_tag :: "string list \<Rightarrow> string list" where
  "server_of_tag [k, url] = (if k = ''server'' then [url] else [])"
| "server_of_tag t = []"

definition parseServerListEvent_spec :: "event \<Rightarrow> error + UserServerList" where
  "parseServerListEvent_spec e =
     Inr \<lparr>servers = concat (map server_of_tag (tags e)), pubkey = author e\<rparr>"

text \<open>
  Modelled from the spec: the signer ("sign(unsignedEvent) -> signedEvent") and the
  relays are external. This signer accepts every event and adds an id and a signature;
  these relays accept every event, hold no server-list event and know no relay list.
\<close>

definition signEventWithMethod_spec ::
  "unsigned_event \<Rightarrow> signing_method \<Rightarrow> nat \<Rightarrow> (error + event) \<times> nat" where
  "signEventWithMethod_spec ue m w =
     (Inr \<lparr>kind = kind ue, tags = tags ue, content = content ue,
           created_at = created_at ue, author = author ue,
           event_id = ''id'', sig = ''sig''\<rparr>, Suc w)"

definition sample_deps :: "nat deps" where
  "sample_deps =
     \<lparr>validateServerUrl = validateServerUrl_spec,
      createServerListEvent = createServerListEvent_spec,
      parseServerListEvent = parseServerListEvent_spec,
      signEventWithMethod = signEventWithMethod_spec,
      queryRelays = (\<lambda>urls f w. (Inr [], Suc w)),
      publishToRelays = (\<lambda>urls e w. (Inr (), Suc w)),
      getUserRelayList = (\<lambda>pk w. (Inr None, Suc w))\<rparr>"

text \<open>The same collaborators with a signer that rejects every event.\<close>

definition rejecting_signer_deps :: "nat deps" where
  "rejecting_signer_deps =
     sample_deps\<lparr>signEventWithMethod := (\<lambda>ue m w. (Inl (Error ''User rejected''), Suc w))\<rparr>"

definition start :: "nat run" where
  "start = \<lparr>world = 0, calls = []\<rparr>"

text \<open>
  An owner with a relay list of her own: the default relays hold no server-list event,
  the relays of her list hold an older and a newer one.
\<close>

definition stored_event :: "int \<Rightarrow> string \<Rightarrow> event" where
  "stored_event t url =
     \<lparr>kind = 10063, tags = [[''server'', url]], content = [], created_at = t,
      author = ''pk'', event_id = ''id'', sig = ''sig''\<rparr>"

definition owner_deps :: "UserRelayList \<Rightarrow> nat deps" where
  "owner_deps rl =
     sample_deps
       \<lparr>queryRelays :=
          (\<lambda>urls f w.
             (if urls = map fst (relays rl)
              then Inr [stored_event 100 ''https://old.example'',
                        stored_event 200 ''https://new.example'']
              else Inr [], Suc w)),
        getUserRelayList := (\<lambda>pk w. (Inr (Some rl), Suc w))\<rparr>"

definition owner_relays :: UserRelayList where
  "owner_relays =
     \<lparr>relays = [(''wss://write.example'', \<lparr>write_flag = Some True\<rparr>),
                (''wss://read.example'', \<lparr>write_flag = Some False\<rparr>)]\<rparr>"

definition read_only_relays :: UserRelayList where
  "read_only_relays = \<lparr>relays = [(''wss://read.example'', \<lparr>write_flag = Some False\<rparr>)]\<rparr>"

section \<open>Order of the collaborator calls\<close>

fun is_sign :: "call \<Rightarrow> bool" where
  "is_sign (SignEventWithMethod ue m res) = True"
| "is_sign c = False"

fun is_publish :: "call \<Rightarrow> bool" where
  "is_publish (PublishToRelays urls e res) = True"
| "is_publish c = False"

text \<open>\<open>occurs_before P Q cs\<close>: some call satisfying \<open>P\<close> comes earlier in \<open>cs\<close> than some call satisfying \<open>Q\<close>.\<close>

fun occurs_before :: "(call \<Rightarrow> bool) \<Rightarrow> (call \<Rightarrow> bool) \<Rightarrow> call list \<Rightarrow> bool" where
  "occurs_before P Q [] = False"
| "occurs_before P Q (c # cs) = ((P c \<and> list_ex Q cs) \<or> occurs_before P Q cs)"

section \<open>The components: profile image upload and media deletion\<close>

text \<open>
  What \<^verbatim>\<open>uploadToPrimaryServer\<close> (ProfileEditForm) and \<^verbatim>\<open>deleteMedia\<close> (MediaGrid)
  read of a file and of a cached blob.
\<close>

record File =
  name :: string
  type :: string

record media_item =
  sha256 :: string

record validation =
  valid :: bool
  error :: "string option"

text \<open>
  \<^verbatim>\<open>removeExifData\<close> rejects with an \<^verbatim>\<open>ExifRemovalError\<close> or with something else; the
  component tells the two apart with \<^verbatim>\<open>instanceof\<close>.
\<close>

datatype exif_failure = ExifRemovalError string | OtherFailure

text \<open>
  The hooks and helpers the two components import, as parameters. Each is used at most
  once in a run, so its outcome is a value: \<^verbatim>\<open>getSigningMethod()\<close>,
  \<^verbatim>\<open>validateFile(file)\<close>, \<^verbatim>\<open>removeExifData(file)\<close>, the answers to
  \<^verbatim>\<open>window.confirm\<close>, \<^verbatim>\<open>new URL(url).hostname\<close> (which throws on a malformed URL),
  the upload \<^verbatim>\<open>retryServerOperation(() => blossomAPI.uploadFile(..))\<close> giving
  \<^verbatim>\<open>result.url\<close>, \<^verbatim>\<open>deleteBlobWithFallback\<close>, and the refreshed cache contents that
  \<^verbatim>\<open>fetchMedia(list, force)\<close> leaves behind.
\<close>

record ui_deps =
  getSigningMethod :: "signing_method option"
  validateFile :: "File \<Rightarrow> validation"
  removeExifData :: "File \<Rightarrow> exif_failure + File"
  confirm :: bool
  hostname :: "string \<Rightarrow> error + string"
  uploadFile :: "string \<Rightarrow> File \<Rightarrow> signing_method \<Rightarrow> error + string"
  deleteBlobWithFallback :: "UserServerList \<Rightarrow> string \<Rightarrow> signing_method \<Rightarrow> error + unit"
  fetchMedia :: "UserServerList option \<Rightarrow> bool \<Rightarrow> media_item list \<Rightarrow> media_item list"

text \<open>What a run of a component does, in order; the two remote calls carry their outcome.\<close>

datatype ui_call =
    RemoveExifData File
  | Confirm
  | Alert string
  | UploadFile string File signing_method "error + string"
  | RemoveMedia string
  | DeleteBlobWithFallback string signing_method "error + unit"
  | FetchMedia "UserServerList option" bool

fun is_network_call :: "ui_call \<Rightarrow> bool" where
  "is_network_call (UploadFile url f m res) = True"
| "is_network_call (DeleteBlobWithFallback h m res) = True"
| "is_network_call (FetchMedia l force) = True"
| "is_network_call c = False"

fun is_forced_refresh :: "ui_call \<Rightarrow> bool" where
  "is_forced_refresh (FetchMedia l force) = force"
| "is_forced_refresh c = False"

text \<open>\<^verbatim>\<open>validation.error || 'File validation failed'\<close>: an absent or empty message gives the default.\<close>

definition validation_message :: "validation \<Rightarrow> string" where
  "validation_message v =
     (case error v of None \<Rightarrow> ''File validation failed''
      | Some msg \<Rightarrow> if msg = [] then ''File validation failed'' else msg)"

text \<open>\<^verbatim>\<open>!userServerList || userServerList.servers.length === 0\<close>\<close>

definition no_servers :: "UserServerList option \<Rightarrow> bool" where
  "no_servers userServerList =
     (case userServerList of None \<Rightarrow> True | Some l \<Rightarrow> length (servers l) = 0)"

text \<open>
  \<^verbatim>\<open>uploadToPrimaryServer\<close>: signing method, file validation, EXIF removal for images
  (with the confirmation dialog when it fails), then the server check, then the upload
  to \<^verbatim>\<open>servers[0]\<close>.
\<close>

definition uploadToPrimaryServer ::
  "ui_deps \<Rightarrow> UserServerList option \<Rightarrow> File \<Rightarrow> (error + string) \<times> ui_call list" where
  "uploadToPrimaryServer env userServerList file =
     (case getSigningMethod env of
        None \<Rightarrow> (Inl (Error ''No signing method available. Please login again.''), [])
      | Some signingMethod \<Rightarrow>
          if \<not> valid (validateFile env file)
          then (Inl (Error (validation_message (validateFile env file))), [])
          else
            (case (if take 6 (type file) = ''image/'' then
                     (case removeExifData env file of
                        Inr stripped \<Rightarrow> (Inr stripped, [RemoveExifData file])
                      | Inl (ExifRemovalError msg) \<Rightarrow>
                          if \<not> confirm env
                          then (Inl (Error ''Upload cancelled due to privacy concerns. Please choose a different image.''),
                                [RemoveExifData file, Confirm])
                          else (Inr file, [RemoveExifData file, Confirm])
                      | Inl OtherFailure \<Rightarrow>
                          (Inl (Error ''Failed to process image''), [RemoveExifData file]))
                   else (Inr file, [])) of
               (Inl err, done) \<Rightarrow> (Inl err, done)
             | (Inr processedFile, done) \<Rightarrow>
                 if no_servers userServerList
                 then (Inl (Error ''No Blossom servers configured. Please configure your servers in Settings first.''),
                       done)
                 else
                   (let serverUrl = hd (servers (the userServerList)) in
                    case hostname env serverUrl of
                      Inl err \<Rightarrow> (Inl err, done)
                    | Inr host \<Rightarrow>
                        (let result = uploadFile env serverUrl processedFile signingMethod in
                         (result, done @ [UploadFile serverUrl processedFile signingMethod result])))))"

text \<open>
  Modelled from the spec: the media cache hook is not among the sources. The spec says
  of \<^verbatim>\<open>removeMedia(hash)\<close>: "optimistic local removal from the cached set".
\<close>

definition removeMedia :: "string \<Rightarrow> media_item list \<Rightarrow> media_item list" where
  "removeMedia h media = filter (\<lambda>item. sha256 item \<noteq> h) media"

text \<open>\<^verbatim>\<open>loadMedia\<close>: \<^verbatim>\<open>fetchMedia(userServerList, true)\<close>, a forced refresh.\<close>

definition loadMedia ::
  "ui_deps \<Rightarrow> UserServerList option \<Rightarrow> media_item list \<Rightarrow> media_item list \<times> ui_call list" where
  "loadMedia env userServerList media =
     (fetchMedia env userServerList True media, [FetchMedia userServerList True])"

text \<open>
  \<^verbatim>\<open>deleteMedia\<close>: the confirmation, the signing method, the lookup of the item, then
  inside \<^verbatim>\<open>try\<close> the removal from the cache and the remote delete; the handler
  reloads and alerts. The result is the cache contents afterwards and what was done.
\<close>

definition deleteMedia ::
  "ui_deps \<Rightarrow> UserServerList option \<Rightarrow> string \<Rightarrow> media_item list
     \<Rightarrow> media_item list \<times> ui_call list" where
  "deleteMedia env userServerList h media =
     (if \<not> confirm env then (media, [Confirm])
      else
        (case getSigningMethod env of
           None \<Rightarrow> (media, [Confirm, Alert ''No signing method available. Please login again.''])
         | Some signingMethod \<Rightarrow>
             (case find (\<lambda>item. sha256 item = h) media of
                None \<Rightarrow> (media, [Confirm])
              | Some itemToDelete \<Rightarrow>
                  (let media1 = removeMedia h media;
                       attempt =
                         (if \<not> no_servers userServerList then
                            (case hostname env (hd (servers (the userServerList))) of
                               Inl err \<Rightarrow> (Inl err, [])
                             | Inr host \<Rightarrow>
                                 (let res = deleteBlobWithFallback env (the userServerList) h signingMethod
                                  in (res, [DeleteBlobWithFallback h signingMethod res])))
                          else (Inl (Error ''No Blossom servers configured. Cannot delete file.''), []))
                   in case attempt of
                        (Inr ok, done) \<Rightarrow> (media1, [Confirm, RemoveMedia h] @ done)
                      | (Inl (Error msg), done) \<Rightarrow>
                          (case loadMedia env userServerList media1 of
                             (media2, reload) \<Rightarrow>
                               (media2, [Confirm, RemoveMedia h] @ done @ reload
                                          @ [Alert (''Failed to delete file: '' @ msg)]))))))"

text \<open>
  A concrete user interface: a logged-in user who confirms every dialog, helpers that
  accept every named file and every server URL, remote calls that succeed, and a
  forced refresh that reloads what the servers hold.
\<close>

definition server_side_media :: "media_item list" where
  "server_side_media = [\<lparr>sha256 = ''abc''\<rparr>, \<lparr>sha256 = ''def''\<rparr>]"

definition sample_ui :: ui_deps where
  "sample_ui =
     \<lparr>getSigningMethod = Some Nsec,
      validateFile =
        (\<lambda>f. if name f = [] then \<lparr>valid = False, error = Some ''No file selected''\<rparr>
             else \<lparr>valid = True, error = None\<rparr>),
      removeExifData = (\<lambda>f. Inr f),
      confirm = True,
      hostname = (\<lambda>url. Inr (drop 8 url)),
      uploadFile = (\<lambda>url f m. Inr (url @ ''/blob'')),
      deleteBlobWithFallback = (\<lambda>l h m. Inr ()),
      fetchMedia = (\<lambda>l force media. if force then server_side_media else media)\<rparr>"

definition logged_out_ui :: ui_deps where
  "logged_out_ui = sample_ui\<lparr>getSigningMethod := None\<rparr>"

definition failing_delete_ui :: ui_deps where
  "failing_delete_ui =
     sample_ui\<lparr>deleteBlobWithFallback := (\<lambda>l h m. Inl (Error ''All servers failed''))\<rparr>"

definition picture :: File where
  "picture = \<lparr>name = ''me.png'', type = ''image/png''\<rparr>"

definition unnamed_picture :: File where
  "unnamed_picture = \<lparr>name = [], type = ''image/png''\<rparr>"

definition empty_list :: UserServerList where
  "empty_list = \<lparr>servers = [], pubkey = ''pk''\<rparr>"

definition one_server :: UserServerList where
  "one_server = \<lparr>servers = [''https://a.example''], pubkey = ''pk''\<rparr>"

section \<open>Properties of the server list operations\<close>

subsection \<open>Auxiliary facts\<close>

lemma not_isl_Inr: "\<not> isl x \<Longrightarrow> \<exists>y. x = Inr y"
  by (cases x) auto

lemma concat_server_tags:
  "concat (map server_of_tag (map (\<lambda>url. [''server'', url]) vs)) = vs"
  by (induction vs) (simp_all del: map_map)

lemma sample_deps_succeed: "collaborators_succeed sample_deps"
  by (simp add: collaborators_succeed_def sample_deps_def createServerListEvent_spec_def
      signEventWithMethod_spec_def parseServerListEvent_spec_def)

lemma sample_deps_reads: "parse_reads_servers sample_deps"
  by (auto simp add: parse_reads_servers_def sample_deps_def createServerListEvent_spec_def
      signEventWithMethod_spec_def parseServerListEvent_spec_def concat_server_tags
      simp del: map_map)

lemma valid_https_a: "validateServerUrl sample_deps ''https://a.example''"
  by (simp add: sample_deps_def validateServerUrl_spec_def)

lemma valid_https_b: "validateServerUrl sample_deps ''https://b.example''"
  by (simp add: sample_deps_def validateServerUrl_spec_def)

lemma invalid_http: "\<not> validateServerUrl sample_deps ''http://insecure.example''"
  by (simp add: sample_deps_def validateServerUrl_spec_def)

lemma createAndPublish_empty:
  "filter (validateServerUrl d) srvs = [] \<Longrightarrow>
   createAndPublishServerList d this srvs pk m r =
     (Inl (Error ''No valid server URLs provided''), r)"
  by (simp add: createAndPublishServerList_def)

lemma createAndPublish_Inr:
  assumes "createAndPublishServerList d this srvs pk m r = (Inr l, r')"
  shows "\<exists>ue e. calls r' = calls r @
            [CreateServerListEvent (filter (validateServerUrl d) srvs) pk (Inr ue),
             SignEventWithMethod ue m (Inr e),
             PublishToRelays (publishRelayUrls this) e (Inr ())] \<and>
           (\<exists>w. fst (createServerListEvent d (filter (validateServerUrl d) srvs) pk w) = Inr ue) \<and>
           (\<exists>w. fst (signEventWithMethod d ue m w) = Inr e) \<and>
           parseServerListEvent d e = Inr l \<and> filter (validateServerUrl d) srvs \<noteq> []"
proof -
  let ?vs = "filter (validateServerUrl d) srvs"
  from assms have ne: "?vs \<noteq> []"
    by (auto simp add: createAndPublishServerList_def Let_def split: if_splits)
  obtain c1 w1 where c1: "createServerListEvent d ?vs pk (world r) = (c1, w1)"
    by (cases "createServerListEvent d ?vs pk (world r)")
  from assms ne c1 obtain ue where ue: "c1 = Inr ue"
    by (cases c1) (auto simp add: createAndPublishServerList_def await_def Let_def)
  obtain c2 w2 where c2: "signEventWithMethod d ue m w1 = (c2, w2)"
    by (cases "signEventWithMethod d ue m w1")
  from assms ne c1 ue c2 obtain e where e: "c2 = Inr e"
    by (cases c2) (auto simp add: createAndPublishServerList_def await_def Let_def)
  obtain c3 w3 where c3: "publishToRelays d (publishRelayUrls this) e w2 = (c3, w3)"
    by (cases "publishToRelays d (publishRelayUrls this) e w2")
  from assms ne c1 ue c2 e c3 obtain u where u: "c3 = Inr u"
    by (cases c3) (auto simp add: createAndPublishServerList_def publishEvent_def await_def Let_def)
  from assms ne c1 ue c2 e c3 u
  have res: "parseServerListEvent d e = Inr l"
    and r': "r' = \<lparr>world = w3, calls = ((calls r @ [CreateServerListEvent ?vs pk (Inr ue)]) @
        [SignEventWithMethod ue m (Inr e)]) @
        [PublishToRelays (publishRelayUrls this) e (Inr ())]\<rparr>"
    by (simp_all add: createAndPublishServerList_def publishEvent_def await_def Let_def)
  from c1 ue have x1: "fst (createServerListEvent d ?vs pk (world r)) = Inr ue" by simp
  from c2 e have x2: "fst (signEventWithMethod d ue m w1) = Inr e" by simp
  from r' have cs: "calls r' = calls r @
            [CreateServerListEvent ?vs pk (Inr ue),
             SignEventWithMethod ue m (Inr e),
             PublishToRelays (publishRelayUrls this) e (Inr ())]" by simp
  from cs x1 x2 res ne show ?thesis by blast
qed

lemma createAndPublish_ok:
  assumes ok: "collaborators_succeed d" and ne: "filter (validateServerUrl d) srvs \<noteq> []"
  shows "\<exists>l r'. createAndPublishServerList d this srvs pk m r = (Inr l, r')"
proof -
  let ?vs = "filter (validateServerUrl d) srvs"
  obtain c1 w1 where c1: "createServerListEvent d ?vs pk (world r) = (c1, w1)"
    by (cases "createServerListEvent d ?vs pk (world r)")
  from ok have "\<not> isl (fst (createServerListEvent d ?vs pk (world r)))"
    unfolding collaborators_succeed_def by blast
  with c1 obtain ue where ue: "c1 = Inr ue"
    using not_isl_Inr[of c1] by auto
  obtain c2 w2 where c2: "signEventWithMethod d ue m w1 = (c2, w2)"
    by (cases "signEventWithMethod d ue m w1")
  from ok have "\<not> isl (fst (signEventWithMethod d ue m w1))"
    unfolding collaborators_succeed_def by blast
  with c2 obtain e where e: "c2 = Inr e"
    using not_isl_Inr[of c2] by auto
  obtain c3 w3 where c3: "publishToRelays d (publishRelayUrls this) e w2 = (c3, w3)"
    by (cases "publishToRelays d (publishRelayUrls this) e w2")
  from ok have "\<not> isl (fst (publishToRelays d (publishRelayUrls this) e w2))"
    unfolding collaborators_succeed_def by blast
  with c3 obtain u where u: "c3 = Inr u"
    using not_isl_Inr[of c3] by auto
  from ok have "\<not> isl (parseServerListEvent d e)"
    unfolding collaborators_succeed_def by blast
  then obtain l where l: "parseServerListEvent d e = Inr l"
    using not_isl_Inr[of "parseServerListEvent d e"] by auto
  show ?thesis
    using ne c1 ue c2 e c3 u l
    by (simp add: createAndPublishServerList_def publishEvent_def await_def Let_def)
qed

lemma createAndPublish_servers:
  assumes "parse_reads_servers d"
    and "createAndPublishServerList d this srvs pk m r = (Inr l, r')"
  shows "servers l = filter (validateServerUrl d) srvs"
  using createAndPublish_Inr[OF assms(2)] assms(1)
  unfolding parse_reads_servers_def by blast

lemma createAndPublish_total:
  assumes "collaborators_succeed d" and "parse_reads_servers d"
    and "filter (validateServerUrl d) srvs \<noteq> []"
  shows "\<exists>l r' ue e. createAndPublishServerList d this srvs pk m r = (Inr l, r') \<and>
           servers l = filter (validateServerUrl d) srvs \<and>
           calls r' = calls r @
             [CreateServerListEvent (filter (validateServerUrl d) srvs) pk (Inr ue),
              SignEventWithMethod ue m (Inr e),
              PublishToRelays (publishRelayUrls this) e (Inr ())]"
proof -
  from createAndPublish_ok[OF assms(1,3)] obtain l r'
    where run: "createAndPublishServerList d this srvs pk m r = (Inr l, r')" by blast
  from createAndPublish_Inr[OF run] createAndPublish_servers[OF assms(2) run] run
  show ?thesis by blast
qed

lemma createAndPublish_Inl:
  assumes "createAndPublishServerList d this srvs pk m r = (Inl err, r')"
    and ne: "filter (validateServerUrl d) srvs \<noteq> []"
  shows "calls r' = calls r @
            [CreateServerListEvent (filter (validateServerUrl d) srvs) pk (Inl err)] \<or>
         (\<exists>ue. calls r' = calls r @
            [CreateServerListEvent (filter (validateServerUrl d) srvs) pk (Inr ue),
             SignEventWithMethod ue m (Inl err)]) \<or>
         (\<exists>ue e. calls r' = calls r @
            [CreateServerListEvent (filter (validateServerUrl d) srvs) pk (Inr ue),
             SignEventWithMethod ue m (Inr e),
             PublishToRelays (publishRelayUrls this) e (Inl err)]) \<or>
         (\<exists>ue e. calls r' = calls r @
            [CreateServerListEvent (filter (validateServerUrl d) srvs) pk (Inr ue),
             SignEventWithMethod ue m (Inr e),
             PublishToRelays (publishRelayUrls this) e (Inr ())] \<and>
            parseServerListEvent d e = Inl err)"
proof -
  let ?vs = "filter (validateServerUrl d) srvs"
  obtain c1 w1 where c1: "createServerListEvent d ?vs pk (world r) = (c1, w1)"
    by (cases "createServerListEvent d ?vs pk (world r)")
  show ?thesis
  proof (cases c1)
    case (Inl e1)
    with assms c1 show ?thesis
      by (auto simp add: createAndPublishServerList_def await_def Let_def)
  next
    case ue: (Inr ue)
    obtain c2 w2 where c2: "signEventWithMethod d ue m w1 = (c2, w2)"
      by (cases "signEventWithMethod d ue m w1")
    show ?thesis
    proof (cases c2)
      case (Inl e2)
      with assms c1 ue c2 show ?thesis
        by (auto simp add: createAndPublishServerList_def await_def Let_def)
    next
      case e: (Inr e)
      obtain c3 w3 where c3: "publishToRelays d (publishRelayUrls this) e w2 = (c3, w3)"
        by (cases "publishToRelays d (publishRelayUrls this) e w2")
      show ?thesis
      proof (cases c3)
        case (Inl e3)
        with assms c1 ue c2 e c3 show ?thesis
          by (auto simp add: createAndPublishServerList_def publishEvent_def await_def Let_def)
      next
        case (Inr u)
        with assms c1 ue c2 e c3
        have "calls r' = calls r @
            [CreateServerListEvent ?vs pk (Inr ue), SignEventWithMethod ue m (Inr e),
             PublishToRelays (publishRelayUrls this) e (Inr ())] \<and>
            parseServerListEvent d e = Inl err"
          by (auto simp add: createAndPublishServerList_def publishEvent_def await_def Let_def)
        then show ?thesis by blast
      qed
    qed
  qed
qed

lemma sample_createAndPublish:
  "filter validateServerUrl_spec srvs \<noteq> [] \<Longrightarrow>
   createAndPublishServerList sample_deps serverListService srvs pk m start =
     (Inr \<lparr>servers = filter validateServerUrl_spec srvs, pubkey = pk\<rparr>,
      \<lparr>world = 2, calls =
         [CreateServerListEvent (filter validateServerUrl_spec srvs) pk
            (Inr \<lparr>kind = 10063, tags = map (\<lambda>url. [''server'', url]) (filter validateServerUrl_spec srvs),
                  content = [], created_at = 0, author = pk\<rparr>),
          SignEventWithMethod
            \<lparr>kind = 10063, tags = map (\<lambda>url. [''server'', url]) (filter validateServerUrl_spec srvs),
                  content = [], created_at = 0, author = pk\<rparr> m
            (Inr \<lparr>kind = 10063, tags = map (\<lambda>url. [''server'', url]) (filter validateServerUrl_spec srvs),
                  content = [], created_at = 0, author = pk, event_id = ''id'', sig = ''sig''\<rparr>),
          PublishToRelays (priv_defaultRelayUrls serverListService)
            \<lparr>kind = 10063, tags = map (\<lambda>url. [''server'', url]) (filter validateServerUrl_spec srvs),
                  content = [], created_at = 0, author = pk, event_id = ''id'', sig = ''sig''\<rparr> (Inr ())]\<rparr>)"
  by (simp add: createAndPublishServerList_def publishEvent_def await_def Let_def start_def
      sample_deps_def createServerListEvent_spec_def publishRelayUrls_def serverListService_def
      signEventWithMethod_spec_def parseServerListEvent_spec_def concat_server_tags
      del: map_map)

lemma filter_all_valid: "list_all P xs \<Longrightarrow> filter P (filter Q xs) = filter Q xs"
  by (induction xs) auto

subsection \<open>Publishing filters the invalid URLs\<close>

text \<open>
  C10, as the claim states it, fails in its last part: the operation does not throw
  only when no valid URL is left. With a valid URL to publish and a signer that
  rejects, it throws the signer's error, after the event has been created and the
  signing attempted.
\<close>

theorem publish_rejecting_signer_counterexample:
  "filter (validateServerUrl rejecting_signer_deps) [''https://a.example''] = [''https://a.example''] \<and>
   createAndPublishServerList rejecting_signer_deps serverListService
        [''https://a.example''] ''pk'' Nsec start
     = (Inl (Error ''User rejected''),
        \<lparr>world = 1, calls =
          [CreateServerListEvent [''https://a.example''] ''pk''
             (Inr \<lparr>kind = 10063, tags = [[''server'', ''https://a.example'']], content = [],
                   created_at = 0, author = ''pk''\<rparr>),
           SignEventWithMethod
             \<lparr>kind = 10063, tags = [[''server'', ''https://a.example'']], content = [],
                   created_at = 0, author = ''pk''\<rparr> Nsec (Inl (Error ''User rejected''))]\<rparr>)"
proof -
  have v: "filter validateServerUrl_spec [''https://a.example''] = [''https://a.example'']"
    using valid_https_a by (simp add: sample_deps_def)
  then show ?thesis
    by (simp add: createAndPublishServerList_def await_def Let_def start_def
        rejecting_signer_deps_def sample_deps_def createServerListEvent_spec_def)
qed

text \<open>
  C10, amended. Publishing a server list through \<^verbatim>\<open>createAndPublishServerList\<close> (and
  \<^verbatim>\<open>updateServerList\<close>, which only forwards to it) drops every invalid URL before
  the event is created, signed and published: the operation does what it does on the
  valid URLs alone, the event is created from the valid URLs in their order, and on
  success the returned list is parsed from the signed and published event, which may
  hold fewer URLs than the caller passed. It throws ``No valid server URLs provided'',
  before any collaborator is called, when no valid URL is left; when a valid URL is
  left it throws only the error with which the event builder, the signer, the relays
  or the parser rejected, and the rejected call is the last one made. With
  collaborators that do not reject it therefore throws exactly when no valid URL is
  left.
\<close>

theorem publish_filters_invalid_urls:
  "(filter (validateServerUrl d) srvs = [] \<longrightarrow>
      createAndPublishServerList d this srvs pk m r =
        (Inl (Error ''No valid server URLs provided''), r)) \<and>
   createAndPublishServerList d this srvs pk m r =
     createAndPublishServerList d this (filter (validateServerUrl d) srvs) pk m r \<and>
   updateServerList d this srvs pk m r = createAndPublishServerList d this srvs pk m r \<and>
   (filter (validateServerUrl d) srvs \<noteq> [] \<longrightarrow>
      (\<exists>c rest. calls (snd (createAndPublishServerList d this srvs pk m r)) =
          calls r @ CreateServerListEvent (filter (validateServerUrl d) srvs) pk c # rest)) \<and>
   (\<forall>l. fst (createAndPublishServerList d this srvs pk m r) = Inr l \<longrightarrow>
      filter (validateServerUrl d) srvs \<noteq> [] \<and>
      (\<exists>ue e. calls (snd (createAndPublishServerList d this srvs pk m r)) = calls r @
          [CreateServerListEvent (filter (validateServerUrl d) srvs) pk (Inr ue),
           SignEventWithMethod ue m (Inr e),
           PublishToRelays (publishRelayUrls this) e (Inr ())] \<and>
         parseServerListEvent d e = Inr l) \<and>
      (parse_reads_servers d \<longrightarrow> servers l = filter (validateServerUrl d) srvs)) \<and>
   (\<forall>err. fst (createAndPublishServerList d this srvs pk m r) = Inl err \<longrightarrow>
      filter (validateServerUrl d) srvs = [] \<or>
      calls (snd (createAndPublishServerList d this srvs pk m r)) = calls r @
         [CreateServerListEvent (filter (validateServerUrl d) srvs) pk (Inl err)] \<or>
      (\<exists>ue. calls (snd (createAndPublishServerList d this srvs pk m r)) = calls r @
         [CreateServerListEvent (filter (validateServerUrl d) srvs) pk (Inr ue),
          SignEventWithMethod ue m (Inl err)]) \<or>
      (\<exists>ue e. calls (snd (createAndPublishServerList d this srvs pk m r)) = calls r @
         [CreateServerListEvent (filter (validateServerUrl d) srvs) pk (Inr ue),
          SignEventWithMethod ue m (Inr e),
          PublishToRelays (publishRelayUrls this) e (Inl err)]) \<or>
      (\<exists>ue e. calls (snd (createAndPublishServerList d this srvs pk m r)) = calls r @
         [CreateServerListEvent (filter (validateServerUrl d) srvs) pk (Inr ue),
          SignEventWithMethod ue m (Inr e),
          PublishToRelays (publishRelayUrls this) e (Inr ())] \<and>
         parseServerListEvent d e = Inl err)) \<and>
   (collaborators_succeed d \<longrightarrow>
      (isl (fst (createAndPublishServerList d this srvs pk m r)) \<longleftrightarrow>
         filter (validateServerUrl d) srvs = []))"
proof -
  let ?vs = "filter (validateServerUrl d) srvs"
  let ?run = "createAndPublishServerList d this srvs pk m r"
  obtain res r' where run: "?run = (res, r')" by (cases ?run)
  have a: "?vs = [] \<longrightarrow> ?run = (Inl (Error ''No valid server URLs provided''), r)"
    using createAndPublish_empty by blast
  have b: "?run = createAndPublishServerList d this ?vs pk m r"
    by (simp add: createAndPublishServerList_def)
  have c: "updateServerList d this srvs pk m r = ?run"
    by (simp add: updateServerList_def)
  have ok: "?vs \<noteq> [] \<and>
      (\<exists>ue e. calls (snd ?run) = calls r @
          [CreateServerListEvent ?vs pk (Inr ue), SignEventWithMethod ue m (Inr e),
           PublishToRelays (publishRelayUrls this) e (Inr ())] \<and>
         parseServerListEvent d e = Inr l) \<and>
      (parse_reads_servers d \<longrightarrow> servers l = ?vs)" if "fst ?run = Inr l" for l
  proof -
    from that run have eq: "?run = (Inr l, r')" by simp
    from createAndPublish_Inr[OF eq] createAndPublish_servers[OF _ eq] eq
    show ?thesis by auto
  qed
  have bad: "?vs = [] \<or>
      calls (snd ?run) = calls r @ [CreateServerListEvent ?vs pk (Inl err)] \<or>
      (\<exists>ue. calls (snd ?run) = calls r @
         [CreateServerListEvent ?vs pk (Inr ue), SignEventWithMethod ue m (Inl err)]) \<or>
      (\<exists>ue e. calls (snd ?run) = calls r @
         [CreateServerListEvent ?vs pk (Inr ue), SignEventWithMethod ue m (Inr e),
          PublishToRelays (publishRelayUrls this) e (Inl err)]) \<or>
      (\<exists>ue e. calls (snd ?run) = calls r @
         [CreateServerListEvent ?vs pk (Inr ue), SignEventWithMethod ue m (Inr e),
          PublishToRelays (publishRelayUrls this) e (Inr ())] \<and>
         parseServerListEvent d e = Inl err)" if "fst ?run = Inl err" for err
  proof (cases "?vs = []")
    case True
    then show ?thesis by simp
  next
    case False
    from that run have eq: "?run = (Inl err, r')" by simp
    from createAndPublish_Inl[OF eq False] eq show ?thesis by simp
  qed
  have first: "\<exists>c rest. calls (snd ?run) = calls r @ CreateServerListEvent ?vs pk c # rest"
    if ne: "?vs \<noteq> []"
  proof (cases res)
    case (Inl err)
    with run have "fst ?run = Inl err" by simp
    from bad[OF this] ne show ?thesis by auto
  next
    case (Inr l)
    with run have "fst ?run = Inr l" by simp
    from ok[OF this] show ?thesis by auto
  qed
  have iff: "isl (fst ?run) \<longleftrightarrow> ?vs = []" if cs: "collaborators_succeed d"
  proof (cases "?vs = []")
    case True
    with a show ?thesis by simp
  next
    case False
    from createAndPublish_ok[OF cs False, of this pk m r] False show ?thesis by auto
  qed
  from a b c first ok bad iff show ?thesis by blast
qed

text \<open>
  Of an insecure and a secure URL only the secure one is published: the published
  list is a strict part of the requested one, and the operation does not throw.
\<close>

theorem publish_filters_invalid_urls_witness:
  "collaborators_succeed sample_deps \<and> parse_reads_servers sample_deps \<and>
   filter (validateServerUrl sample_deps) [''http://insecure.example'', ''https://a.example'']
     = [''https://a.example''] \<and>
   fst (createAndPublishServerList sample_deps serverListService
          [''http://insecure.example'', ''https://a.example''] ''pk'' Nsec start)
     = Inr \<lparr>servers = [''https://a.example''], pubkey = ''pk''\<rparr> \<and>
   \<not> isl (fst (createAndPublishServerList sample_deps serverListService
          [''http://insecure.example'', ''https://a.example''] ''pk'' Nsec start)) \<and>
   createAndPublishServerList sample_deps serverListService
          [''http://insecure.example'', ''https://a.example''] ''pk'' Nsec start
     = createAndPublishServerList sample_deps serverListService
          [''https://a.example''] ''pk'' Nsec start"
proof -
  let ?srvs = "[''http://insecure.example'', ''https://a.example'']"
  let ?run = "createAndPublishServerList sample_deps serverListService ?srvs ''pk'' Nsec start"
  have v: "filter (validateServerUrl sample_deps) ?srvs = [''https://a.example'']"
    using valid_https_a invalid_http by simp
  have v': "filter validateServerUrl_spec ?srvs = [''https://a.example'']"
    using v by (simp add: sample_deps_def)
  have run: "fst ?run = Inr \<lparr>servers = [''https://a.example''], pubkey = ''pk''\<rparr>"
    using sample_createAndPublish[of ?srvs "''pk''" Nsec]
    by (simp only: v' fst_conv) simp
  note inst = publish_filters_invalid_urls[where d = sample_deps and srvs = ?srvs
      and this = serverListService and pk = "''pk''" and m = Nsec and r = start]
  from inst have "collaborators_succeed sample_deps \<longrightarrow>
      (isl (fst ?run) \<longleftrightarrow> filter (validateServerUrl sample_deps) ?srvs = [])"
    by blast
  with sample_deps_succeed v have ok: "\<not> isl (fst ?run)" by simp
  from inst have "?run = createAndPublishServerList sample_deps serverListService
          (filter (validateServerUrl sample_deps) ?srvs) ''pk'' Nsec start"
    by blast
  with v have same: "?run = createAndPublishServerList sample_deps serverListService
          [''https://a.example''] ''pk'' Nsec start"
    by simp
  from v run ok same sample_deps_succeed sample_deps_reads show ?thesis by blast
qed

subsection \<open>Removing a server\<close>

text \<open>
  C1, as the claim states it, fails: removing the only server of a list does not
  give a list with no servers, the operation throws, and nothing is signed or
  published.
\<close>

theorem removeServer_last_counterexample:
  "''https://a.example'' \<in> set (servers \<lparr>servers = [''https://a.example''], pubkey = ''pk''\<rparr>) \<and>
   removeServer sample_deps serverListService ''https://a.example''
      \<lparr>servers = [''https://a.example''], pubkey = ''pk''\<rparr> Nsec start
     = (Inl (Error ''No valid server URLs provided''), start)"
  by (simp add: removeServer_def updateServerList_def createAndPublishServerList_def)

text \<open>
  C1, amended. With collaborators that do not reject, \<^verbatim>\<open>removeServer(u, list)\<close>
  succeeds exactly when a valid URL other than \<open>u\<close> is left; the returned servers are
  then the current servers with \<open>u\<close> and the invalid URLs filtered out, in their
  original order, which is the current sequence without \<open>u\<close> when every current
  server is valid. When no valid URL is left, as when the only server is removed, it
  throws and leaves the record of calls unchanged.
\<close>

theorem removeServer_filters:
  assumes "collaborators_succeed d" and "parse_reads_servers d"
  shows "(filter (validateServerUrl d) (filter (\<lambda>url. url \<noteq> u) (servers L)) = [] \<longrightarrow>
            removeServer d this u L m r = (Inl (Error ''No valid server URLs provided''), r)) \<and>
         (filter (validateServerUrl d) (filter (\<lambda>url. url \<noteq> u) (servers L)) \<noteq> [] \<longrightarrow>
            (\<exists>l r'. removeServer d this u L m r = (Inr l, r') \<and>
               servers l = filter (validateServerUrl d) (filter (\<lambda>url. url \<noteq> u) (servers L)))) \<and>
         (list_all (validateServerUrl d) (servers L) \<longrightarrow>
            filter (validateServerUrl d) (filter (\<lambda>url. url \<noteq> u) (servers L))
              = filter (\<lambda>url. url \<noteq> u) (servers L))"
proof -
  let ?rest = "filter (\<lambda>url. url \<noteq> u) (servers L)"
  have run: "removeServer d this u L m r =
      createAndPublishServerList d this ?rest (pubkey L) m r"
    by (simp add: removeServer_def updateServerList_def)
  have a: "filter (validateServerUrl d) ?rest = [] \<Longrightarrow>
      removeServer d this u L m r = (Inl (Error ''No valid server URLs provided''), r)"
    unfolding run by (rule createAndPublish_empty)
  have b: "filter (validateServerUrl d) ?rest \<noteq> [] \<Longrightarrow>
      (\<exists>l r'. removeServer d this u L m r = (Inr l, r') \<and>
               servers l = filter (validateServerUrl d) ?rest)"
    unfolding run using createAndPublish_total[OF assms, of ?rest this "pubkey L" m r] by blast
  have c: "list_all (validateServerUrl d) (servers L) \<Longrightarrow>
      filter (validateServerUrl d) ?rest = ?rest"
    by (rule filter_all_valid)
  from a b c show ?thesis by blast
qed

theorem removeServer_filters_witness:
  "collaborators_succeed sample_deps \<and> parse_reads_servers sample_deps \<and>
   list_all (validateServerUrl sample_deps) [''https://a.example'', ''https://b.example''] \<and>
   fst (removeServer sample_deps serverListService ''https://a.example''
      \<lparr>servers = [''https://a.example'', ''https://b.example''], pubkey = ''pk''\<rparr> Nsec start)
     = Inr \<lparr>servers = [''https://b.example''], pubkey = ''pk''\<rparr>"
proof -
  let ?L = "\<lparr>servers = [''https://a.example'', ''https://b.example''], pubkey = ''pk''\<rparr>"
  have v: "list_all (validateServerUrl sample_deps) [''https://a.example'', ''https://b.example'']"
    using valid_https_a valid_https_b by simp
  have f: "filter (validateServerUrl sample_deps)
             (filter (\<lambda>url. url \<noteq> ''https://a.example'') (servers ?L)) = [''https://b.example'']"
    using valid_https_b by simp
  from removeServer_filters[OF sample_deps_succeed sample_deps_reads,
      of "''https://a.example''" ?L serverListService Nsec start] f
  obtain l r' where run: "removeServer sample_deps serverListService ''https://a.example'' ?L Nsec start
        = (Inr l, r')" and l: "servers l = [''https://b.example'']"
    by auto
  have "removeServer sample_deps serverListService ''https://a.example'' ?L Nsec start
      = createAndPublishServerList sample_deps serverListService [''https://b.example''] ''pk'' Nsec start"
    by (simp add: removeServer_def updateServerList_def)
  with sample_createAndPublish[of "[''https://b.example'']" "''pk''" Nsec] valid_https_b
  have "fst (removeServer sample_deps serverListService ''https://a.example'' ?L Nsec start)
      = Inr \<lparr>servers = [''https://b.example''], pubkey = ''pk''\<rparr>"
    by (simp add: sample_deps_def)
  with v run l sample_deps_succeed sample_deps_reads show ?thesis by simp
qed

subsection \<open>Adding a server\<close>

text \<open>
  C3, as the claim states it, fails in its second half: the URLs of the current list
  pass through the publishing filter too, so an invalid URL already in the list is
  dropped and the result is not the current sequence with the new URL appended.
\<close>

theorem addServer_append_counterexample:
  "fst (addServer sample_deps serverListService ''https://a.example''
          \<lparr>servers = [''http://insecure.example''], pubkey = ''pk''\<rparr> Nsec start)
     = Inr \<lparr>servers = [''https://a.example''], pubkey = ''pk''\<rparr> \<and>
   [''https://a.example''] \<noteq>
     servers \<lparr>servers = [''http://insecure.example''], pubkey = ''pk''\<rparr> @ [''https://a.example'']"
proof -
  have v: "filter validateServerUrl_spec [''http://insecure.example'', ''https://a.example'']
     = [''https://a.example'']"
    using valid_https_a invalid_http by (simp add: sample_deps_def)
  have "addServer sample_deps serverListService ''https://a.example''
          \<lparr>servers = [''http://insecure.example''], pubkey = ''pk''\<rparr> Nsec start
      = createAndPublishServerList sample_deps serverListService
          [''http://insecure.example'', ''https://a.example''] ''pk'' Nsec start"
    using valid_https_a by (simp add: addServer_def updateServerList_def)
  with sample_createAndPublish[of "[''http://insecure.example'', ''https://a.example'']" "''pk''" Nsec]
  show ?thesis by (simp only: v fst_conv) simp
qed

text \<open>
  C3, amended. With collaborators that do not reject, \<^verbatim>\<open>addServer(u, list)\<close> fails
  exactly when \<open>u\<close> is invalid or already among the current servers (with the errors
  ``Invalid server URL'' and ``Server already in list'', before anything is signed or
  published); when it succeeds, the resulting servers are the valid URLs of the
  current sequence, in order, with \<open>u\<close> appended at the end, which is the current
  sequence with \<open>u\<close> appended when every current server is valid.
\<close>

theorem addServer_fails_or_appends:
  assumes "collaborators_succeed d" and "parse_reads_servers d"
  shows "(\<not> validateServerUrl d u \<longrightarrow>
            addServer d this u L m r = (Inl (Error ''Invalid server URL''), r)) \<and>
         (validateServerUrl d u \<and> u \<in> set (servers L) \<longrightarrow>
            addServer d this u L m r = (Inl (Error ''Server already in list''), r)) \<and>
         (validateServerUrl d u \<and> u \<notin> set (servers L) \<longrightarrow>
            (\<exists>l r'. addServer d this u L m r = (Inr l, r') \<and>
               servers l = filter (validateServerUrl d) (servers L) @ [u])) \<and>
         (isl (fst (addServer d this u L m r)) \<longleftrightarrow>
            \<not> validateServerUrl d u \<or> u \<in> set (servers L)) \<and>
         (list_all (validateServerUrl d) (servers L) \<longrightarrow>
            filter (validateServerUrl d) (servers L) @ [u] = servers L @ [u])"
proof -
  have a: "\<not> validateServerUrl d u \<Longrightarrow>
      addServer d this u L m r = (Inl (Error ''Invalid server URL''), r)"
    by (simp add: addServer_def)
  have b: "validateServerUrl d u \<and> u \<in> set (servers L) \<Longrightarrow>
      addServer d this u L m r = (Inl (Error ''Server already in list''), r)"
    by (simp add: addServer_def)
  have c: "\<exists>l r'. addServer d this u L m r = (Inr l, r') \<and>
               servers l = filter (validateServerUrl d) (servers L) @ [u]"
    if h: "validateServerUrl d u \<and> u \<notin> set (servers L)"
  proof -
    from h have run: "addServer d this u L m r =
        createAndPublishServerList d this (servers L @ [u]) (pubkey L) m r"
      by (simp add: addServer_def updateServerList_def)
    from h have f: "filter (validateServerUrl d) (servers L @ [u]) =
        filter (validateServerUrl d) (servers L) @ [u]"
      by simp
    then have "filter (validateServerUrl d) (servers L @ [u]) \<noteq> []" by simp
    from createAndPublish_total[OF assms this, of this "pubkey L" m r] run f
    show ?thesis by auto
  qed
  have e: "isl (fst (addServer d this u L m r)) \<longleftrightarrow>
            \<not> validateServerUrl d u \<or> u \<in> set (servers L)"
  proof (cases "validateServerUrl d u \<and> u \<notin> set (servers L)")
    case True
    from c[OF True] obtain l r' where "addServer d this u L m r = (Inr l, r')" by blast
    with True show ?thesis by simp
  next
    case False
    then show ?thesis using a b by (cases "validateServerUrl d u") auto
  qed
  have g: "list_all (validateServerUrl d) (servers L) \<Longrightarrow>
      filter (validateServerUrl d) (servers L) @ [u] = servers L @ [u]"
    by (simp add: list_all_iff)
  from a b c e g show ?thesis by blast
qed

theorem addServer_fails_or_appends_witness:
  "collaborators_succeed sample_deps \<and> parse_reads_servers sample_deps \<and>
   validateServerUrl sample_deps ''https://b.example'' \<and>
   ''https://b.example'' \<notin> set (servers \<lparr>servers = [''https://a.example''], pubkey = ''pk''\<rparr>) \<and>
   list_all (validateServerUrl sample_deps) [''https://a.example''] \<and>
   fst (addServer sample_deps serverListService ''https://b.example''
          \<lparr>servers = [''https://a.example''], pubkey = ''pk''\<rparr> Nsec start)
     = Inr \<lparr>servers = [''https://a.example'', ''https://b.example''], pubkey = ''pk''\<rparr> \<and>
   addServer sample_deps serverListService ''https://a.example''
          \<lparr>servers = [''https://a.example''], pubkey = ''pk''\<rparr> Nsec start
     = (Inl (Error ''Server already in list''), start) \<and>
   addServer sample_deps serverListService ''http://insecure.example''
          \<lparr>servers = [''https://a.example''], pubkey = ''pk''\<rparr> Nsec start
     = (Inl (Error ''Invalid server URL''), start)"
proof -
  let ?L = "\<lparr>servers = [''https://a.example''], pubkey = ''pk''\<rparr>"
  note inst = addServer_fails_or_appends[OF sample_deps_succeed sample_deps_reads]
  have v: "filter validateServerUrl_spec [''https://a.example'', ''https://b.example'']
     = [''https://a.example'', ''https://b.example'']"
    using valid_https_a valid_https_b by (simp add: sample_deps_def)
  have "addServer sample_deps serverListService ''https://b.example'' ?L Nsec start
      = createAndPublishServerList sample_deps serverListService
          [''https://a.example'', ''https://b.example''] ''pk'' Nsec start"
    using valid_https_b by (simp add: addServer_def updateServerList_def)
  with sample_createAndPublish[of "[''https://a.example'', ''https://b.example'']" "''pk''" Nsec]
  have ok: "fst (addServer sample_deps serverListService ''https://b.example'' ?L Nsec start)
     = Inr \<lparr>servers = [''https://a.example'', ''https://b.example''], pubkey = ''pk''\<rparr>"
    by (simp only: v fst_conv) simp
  from inst[where u = "''https://a.example''" and L = ?L and this = serverListService
      and m = Nsec and r = start] valid_https_a
  have dup: "addServer sample_deps serverListService ''https://a.example'' ?L Nsec start
     = (Inl (Error ''Server already in list''), start)"
    by simp
  from inst[where u = "''http://insecure.example''" and L = ?L and this = serverListService
      and m = Nsec and r = start] invalid_http
  have bad: "addServer sample_deps serverListService ''http://insecure.example'' ?L Nsec start
     = (Inl (Error ''Invalid server URL''), start)"
    by simp
  have nin: "''https://b.example'' \<notin> set (servers ?L)" by simp
  have all: "list_all (validateServerUrl sample_deps) [''https://a.example'']"
    using valid_https_a by simp
  from sample_deps_succeed sample_deps_reads valid_https_b nin all ok dup bad
  show ?thesis by blast
qed

subsection \<open>Reordering\<close>

text \<open>
  C4, as the claim states it, fails: a candidate order of which no element survives
  the filter (here a single URL that is not in the current list) makes the operation
  throw instead of giving the filtered, empty sequence.
\<close>

theorem reorderServers_stale_counterexample:
  "reorder_validServers sample_deps [''https://c.example'']
      \<lparr>servers = [''https://a.example''], pubkey = ''pk''\<rparr> = [] \<and>
   reorderServers sample_deps serverListService [''https://c.example'']
      \<lparr>servers = [''https://a.example''], pubkey = ''pk''\<rparr> Nsec start
     = (Inl (Error ''No valid server URLs provided''), start)"
  by (simp add: reorderServers_def reorder_validServers_def updateServerList_def
      createAndPublishServerList_def)

text \<open>
  C4, amended. With collaborators that do not reject: when at least one element of the
  candidate order \<open>C\<close> is both a member of the current servers and a valid URL,
  \<^verbatim>\<open>reorderServers(C, L)\<close> succeeds and its resulting servers sequence is exactly those
  elements of \<open>C\<close>, kept in \<open>C\<close>'s order, every other element of \<open>C\<close> being silently
  dropped; when no element of \<open>C\<close> survives, it throws ``No valid server URLs
  provided'' and nothing is signed or published.
\<close>

theorem reorderServers_keeps_known_valid:
  assumes "collaborators_succeed d" and "parse_reads_servers d"
  shows "reorder_validServers d C L =
            filter (\<lambda>url. url \<in> set (servers L) \<and> validateServerUrl d url) C \<and>
         (reorder_validServers d C L \<noteq> [] \<longrightarrow>
            (\<exists>l r'. reorderServers d this C L m r = (Inr l, r') \<and>
               servers l = reorder_validServers d C L)) \<and>
         (reorder_validServers d C L = [] \<longrightarrow>
            reorderServers d this C L m r = (Inl (Error ''No valid server URLs provided''), r))"
proof -
  let ?kept = "reorder_validServers d C L"
  have idem: "filter (validateServerUrl d) ?kept = ?kept"
    by (simp add: reorder_validServers_def conj_commute)
  have run: "reorderServers d this C L m r =
      createAndPublishServerList d this ?kept (pubkey L) m r"
    by (simp add: reorderServers_def updateServerList_def)
  have a: "?kept = [] \<Longrightarrow>
      reorderServers d this C L m r = (Inl (Error ''No valid server URLs provided''), r)"
    unfolding run by (rule createAndPublish_empty) simp
  have b: "\<exists>l r'. reorderServers d this C L m r = (Inr l, r') \<and> servers l = ?kept"
    if ne: "?kept \<noteq> []"
  proof -
    from ne idem have "filter (validateServerUrl d) ?kept \<noteq> []" by simp
    from createAndPublish_total[OF assms this, of this "pubkey L" m r] idem run
    show ?thesis by auto
  qed
  have c: "?kept = filter (\<lambda>url. url \<in> set (servers L) \<and> validateServerUrl d url) C"
    by (simp add: reorder_validServers_def)
  from a b c show ?thesis by blast
qed

theorem reorderServers_keeps_known_valid_witness:
  "collaborators_succeed sample_deps \<and> parse_reads_servers sample_deps \<and>
   reorder_validServers sample_deps
      [''https://b.example'', ''https://c.example'', ''http://insecure.example'', ''https://a.example'']
      \<lparr>servers = [''https://a.example'', ''http://insecure.example'', ''https://b.example''],
        pubkey = ''pk''\<rparr>
     = [''https://b.example'', ''https://a.example''] \<and>
   fst (reorderServers sample_deps serverListService
        [''https://b.example'', ''https://c.example'', ''http://insecure.example'', ''https://a.example'']
        \<lparr>servers = [''https://a.example'', ''http://insecure.example'', ''https://b.example''],
          pubkey = ''pk''\<rparr> Nsec start)
     = Inr \<lparr>servers = [''https://b.example'', ''https://a.example''], pubkey = ''pk''\<rparr>"
proof -
  let ?C = "[''https://b.example'', ''https://c.example'', ''http://insecure.example'', ''https://a.example'']"
  let ?L = "\<lparr>servers = [''https://a.example'', ''http://insecure.example'', ''https://b.example''],
        pubkey = ''pk''\<rparr>"
  have k: "reorder_validServers sample_deps ?C ?L = [''https://b.example'', ''https://a.example'']"
    using valid_https_a valid_https_b invalid_http by (simp add: reorder_validServers_def)
  from reorderServers_keeps_known_valid[OF sample_deps_succeed sample_deps_reads,
      of ?C ?L serverListService Nsec start] k
  obtain l r' where run: "reorderServers sample_deps serverListService ?C ?L Nsec start = (Inr l, r')"
    and l: "servers l = [''https://b.example'', ''https://a.example'']"
    by auto
  have v: "filter validateServerUrl_spec [''https://b.example'', ''https://a.example'']
     = [''https://b.example'', ''https://a.example'']"
    using valid_https_a valid_https_b by (simp add: sample_deps_def)
  have "reorderServers sample_deps serverListService ?C ?L Nsec start
      = createAndPublishServerList sample_deps serverListService
          [''https://b.example'', ''https://a.example''] ''pk'' Nsec start"
    using k by (simp add: reorderServers_def updateServerList_def)
  with sample_createAndPublish[of "[''https://b.example'', ''https://a.example'']" "''pk''" Nsec]
  have "fst (reorderServers sample_deps serverListService ?C ?L Nsec start)
     = Inr \<lparr>servers = [''https://b.example'', ''https://a.example''], pubkey = ''pk''\<rparr>"
    by (simp only: v fst_conv) simp
  with k run l sample_deps_succeed sample_deps_reads show ?thesis by blast
qed

text \<open>
  C9. Reordering is idempotent. Whenever \<^verbatim>\<open>reorderServers(C, L)\<close> returns a list
  \<open>L'\<close>, the filtering step applied to the same candidate order \<open>C\<close> and \<open>L'\<close> gives
  the servers of \<open>L'\<close> again, the same sequence as the filtering step on \<open>L\<close>; and
  with collaborators that do not reject, reordering \<open>L'\<close> by \<open>C\<close> once more succeeds
  with that same sequence. The filtering step alone is idempotent as well.
\<close>

theorem reorder_idempotent:
  assumes "parse_reads_servers d"
    and "reorderServers d this C L m r = (Inr L', r')"
  shows "reorder_validServers d C L' = servers L' \<and>
         reorder_validServers d C L' = reorder_validServers d C L \<and>
         reorder_validServers d C (L\<lparr>servers := reorder_validServers d C L\<rparr>)
           = reorder_validServers d C L \<and>
         (collaborators_succeed d \<longrightarrow>
            (\<exists>L'' r''. reorderServers d this C L' m r' = (Inr L'', r'') \<and>
               servers L'' = servers L'))"
proof -
  let ?kept = "reorder_validServers d C L"
  have idem: "filter (validateServerUrl d) ?kept = ?kept"
    by (simp add: reorder_validServers_def conj_commute)
  from assms(2) have run: "createAndPublishServerList d this ?kept (pubkey L) m r = (Inr L', r')"
    by (simp add: reorderServers_def updateServerList_def)
  from createAndPublish_servers[OF assms(1) run] idem
  have s: "servers L' = ?kept" by simp
  from createAndPublish_Inr[OF run] idem have ne: "?kept \<noteq> []" by auto
  have twice: "reorder_validServers d C (L\<lparr>servers := ?kept\<rparr>) = ?kept"
    unfolding reorder_validServers_def by (rule filter_cong) auto
  have k': "reorder_validServers d C L' = ?kept"
    using twice s by (simp add: reorder_validServers_def)
  have more: "\<exists>L'' r''. reorderServers d this C L' m r' = (Inr L'', r'') \<and> servers L'' = servers L'"
    if ok: "collaborators_succeed d"
  proof -
    have run2: "reorderServers d this C L' m r' =
        createAndPublishServerList d this ?kept (pubkey L') m r'"
      by (simp add: reorderServers_def updateServerList_def k')
    from ne idem have "filter (validateServerUrl d) ?kept \<noteq> []" by simp
    from createAndPublish_total[OF ok assms(1) this, of this "pubkey L'" m r'] run2 idem s
    show ?thesis by auto
  qed
  from s k' twice more show ?thesis by simp
qed

theorem reorder_idempotent_witness:
  "parse_reads_servers sample_deps \<and> collaborators_succeed sample_deps \<and>
   fst (reorderServers sample_deps serverListService
        [''https://b.example'', ''https://c.example'', ''https://a.example'']
        \<lparr>servers = [''https://a.example'', ''https://b.example''], pubkey = ''pk''\<rparr> Nsec start)
     = Inr \<lparr>servers = [''https://b.example'', ''https://a.example''], pubkey = ''pk''\<rparr> \<and>
   reorder_validServers sample_deps
        [''https://b.example'', ''https://c.example'', ''https://a.example'']
        \<lparr>servers = [''https://b.example'', ''https://a.example''], pubkey = ''pk''\<rparr>
     = [''https://b.example'', ''https://a.example''] \<and>
   map_sum id servers
     (fst (reorderServers sample_deps serverListService
        [''https://b.example'', ''https://c.example'', ''https://a.example'']
        \<lparr>servers = [''https://b.example'', ''https://a.example''], pubkey = ''pk''\<rparr> Nsec
        (snd (reorderServers sample_deps serverListService
          [''https://b.example'', ''https://c.example'', ''https://a.example'']
          \<lparr>servers = [''https://a.example'', ''https://b.example''], pubkey = ''pk''\<rparr> Nsec start))))
     = Inr [''https://b.example'', ''https://a.example'']"
proof -
  let ?C = "[''https://b.example'', ''https://c.example'', ''https://a.example'']"
  let ?L = "\<lparr>servers = [''https://a.example'', ''https://b.example''], pubkey = ''pk''\<rparr>"
  let ?L' = "\<lparr>servers = [''https://b.example'', ''https://a.example''], pubkey = ''pk''\<rparr>"
  let ?first = "reorderServers sample_deps serverListService ?C ?L Nsec start"
  have k: "reorder_validServers sample_deps ?C ?L = [''https://b.example'', ''https://a.example'']"
    using valid_https_a valid_https_b by (simp add: reorder_validServers_def)
  have v: "filter validateServerUrl_spec [''https://b.example'', ''https://a.example'']
     = [''https://b.example'', ''https://a.example'']"
    using valid_https_a valid_https_b by (simp add: sample_deps_def)
  have "?first = createAndPublishServerList sample_deps serverListService
          [''https://b.example'', ''https://a.example''] ''pk'' Nsec start"
    using k by (simp add: reorderServers_def updateServerList_def)
  with sample_createAndPublish[of "[''https://b.example'', ''https://a.example'']" "''pk''" Nsec]
  have f: "fst ?first = Inr ?L'"
    by (simp only: v) simp
  then have run: "?first = (Inr ?L', snd ?first)"
    by (metis prod.collapse)
  note idem = reorder_idempotent[OF sample_deps_reads run]
  from idem have again: "reorder_validServers sample_deps ?C ?L' = servers ?L'" by blast
  from idem sample_deps_succeed obtain L'' r''
    where "reorderServers sample_deps serverListService ?C ?L' Nsec (snd ?first) = (Inr L'', r'')"
      and "servers L'' = servers ?L'"
    by blast
  then have "map_sum id servers
      (fst (reorderServers sample_deps serverListService ?C ?L' Nsec (snd ?first)))
     = Inr [''https://b.example'', ''https://a.example'']"
    by simp
  with f again sample_deps_reads sample_deps_succeed show ?thesis by simp
qed

subsection \<open>Signing and publishing\<close>

text \<open>
  C5, as the claim states it, fails: in a successful add the signing call comes before
  the publish call, and no publish call comes before a signing call.
\<close>

theorem publish_before_sign_counterexample:
  "fst (addServer sample_deps serverListService ''https://a.example''
          \<lparr>servers = [], pubkey = ''pk''\<rparr> Nsec start)
     = Inr \<lparr>servers = [''https://a.example''], pubkey = ''pk''\<rparr> \<and>
   \<not> occurs_before is_publish is_sign
        (calls (snd (addServer sample_deps serverListService ''https://a.example''
          \<lparr>servers = [], pubkey = ''pk''\<rparr> Nsec start))) \<and>
   occurs_before is_sign is_publish
        (calls (snd (addServer sample_deps serverListService ''https://a.example''
          \<lparr>servers = [], pubkey = ''pk''\<rparr> Nsec start)))"
proof -
  have v: "filter validateServerUrl_spec [''https://a.example''] = [''https://a.example'']"
    using valid_https_a by (simp add: sample_deps_def)
  have "addServer sample_deps serverListService ''https://a.example''
          \<lparr>servers = [], pubkey = ''pk''\<rparr> Nsec start
      = createAndPublishServerList sample_deps serverListService
          [''https://a.example''] ''pk'' Nsec start"
    using valid_https_a by (simp add: addServer_def updateServerList_def)
  with sample_createAndPublish[of "[''https://a.example'']" "''pk''" Nsec]
  show ?thesis by (simp only: v) simp
qed

text \<open>
  C5, amended. In every successful add, remove or reorder operation the persistence
  step makes exactly three collaborator calls, in this order: it creates the event
  from the valid servers of the operation's new list (for add the valid current
  servers with the new URL appended, for remove the valid current servers other than
  the removed URL, for reorder the candidates that are current and valid), signs the
  event created, and then publishes the signed event to the publish relays. Signing
  happens before publishing, never after it.
\<close>

theorem sign_then_publish:
  "(addServer d this u L m r = (Inr l, r') \<longrightarrow>
      (\<exists>ue e. calls r' = calls r @
         [CreateServerListEvent (filter (validateServerUrl d) (servers L) @ [u]) (pubkey L) (Inr ue),
          SignEventWithMethod ue m (Inr e),
          PublishToRelays (publishRelayUrls this) e (Inr ())])) \<and>
   (removeServer d this u L m r = (Inr l, r') \<longrightarrow>
      (\<exists>ue e. calls r' = calls r @
         [CreateServerListEvent
            (filter (validateServerUrl d) (filter (\<lambda>url. url \<noteq> u) (servers L))) (pubkey L) (Inr ue),
          SignEventWithMethod ue m (Inr e),
          PublishToRelays (publishRelayUrls this) e (Inr ())])) \<and>
   (reorderServers d this C L m r = (Inr l, r') \<longrightarrow>
      (\<exists>ue e. calls r' = calls r @
         [CreateServerListEvent (reorder_validServers d C L) (pubkey L) (Inr ue),
          SignEventWithMethod ue m (Inr e),
          PublishToRelays (publishRelayUrls this) e (Inr ())])) \<and>
   (addServer d this u L m r = (Inr l, r') \<or>
    removeServer d this u L m r = (Inr l, r') \<or>
    reorderServers d this C L m r = (Inr l, r') \<longrightarrow>
      occurs_before is_sign is_publish (drop (length (calls r)) (calls r')) \<and>
      \<not> occurs_before is_publish is_sign (drop (length (calls r)) (calls r')))"
proof -
  have add: "\<exists>ue e. calls r' = calls r @
         [CreateServerListEvent (filter (validateServerUrl d) (servers L) @ [u]) (pubkey L) (Inr ue),
          SignEventWithMethod ue m (Inr e),
          PublishToRelays (publishRelayUrls this) e (Inr ())]"
    if h: "addServer d this u L m r = (Inr l, r')"
  proof -
    from h have valid: "validateServerUrl d u"
      and run: "createAndPublishServerList d this (servers L @ [u]) (pubkey L) m r = (Inr l, r')"
      by (auto simp add: addServer_def updateServerList_def split: if_splits)
    from valid have "filter (validateServerUrl d) (servers L @ [u])
        = filter (validateServerUrl d) (servers L) @ [u]" by simp
    with createAndPublish_Inr[OF run] show ?thesis by auto
  qed
  have remove: "\<exists>ue e. calls r' = calls r @
         [CreateServerListEvent
            (filter (validateServerUrl d) (filter (\<lambda>url. url \<noteq> u) (servers L))) (pubkey L) (Inr ue),
          SignEventWithMethod ue m (Inr e),
          PublishToRelays (publishRelayUrls this) e (Inr ())]"
    if h: "removeServer d this u L m r = (Inr l, r')"
  proof -
    from h have run: "createAndPublishServerList d this
        (filter (\<lambda>url. url \<noteq> u) (servers L)) (pubkey L) m r = (Inr l, r')"
      by (simp add: removeServer_def updateServerList_def)
    from createAndPublish_Inr[OF run] show ?thesis by blast
  qed
  have reorder: "\<exists>ue e. calls r' = calls r @
         [CreateServerListEvent (reorder_validServers d C L) (pubkey L) (Inr ue),
          SignEventWithMethod ue m (Inr e),
          PublishToRelays (publishRelayUrls this) e (Inr ())]"
    if h: "reorderServers d this C L m r = (Inr l, r')"
  proof -
    have idem: "filter (validateServerUrl d) (reorder_validServers d C L)
        = reorder_validServers d C L"
      by (simp add: reorder_validServers_def conj_commute)
    from h have run: "createAndPublishServerList d this
        (reorder_validServers d C L) (pubkey L) m r = (Inr l, r')"
      by (simp add: reorderServers_def updateServerList_def)
    from createAndPublish_Inr[OF run] idem show ?thesis by auto
  qed
  have order: "occurs_before is_sign is_publish (drop (length (calls r)) (calls r')) \<and>
      \<not> occurs_before is_publish is_sign (drop (length (calls r)) (calls r'))"
    if "\<exists>vs ue e. calls r' = calls r @
         [CreateServerListEvent vs (pubkey L) (Inr ue), SignEventWithMethod ue m (Inr e),
          PublishToRelays (publishRelayUrls this) e (Inr ())]"
    using that by auto
  have all: "occurs_before is_sign is_publish (drop (length (calls r)) (calls r')) \<and>
      \<not> occurs_before is_publish is_sign (drop (length (calls r)) (calls r'))"
    if h: "addServer d this u L m r = (Inr l, r') \<or>
           removeServer d this u L m r = (Inr l, r') \<or>
           reorderServers d this C L m r = (Inr l, r')"
  proof -
    from h add remove reorder
    have "\<exists>vs ue e. calls r' = calls r @
         [CreateServerListEvent vs (pubkey L) (Inr ue), SignEventWithMethod ue m (Inr e),
          PublishToRelays (publishRelayUrls this) e (Inr ())]"
      by blast
    then show ?thesis by (rule order)
  qed
  from add remove reorder all show ?thesis by blast
qed

theorem sign_then_publish_witness:
  "removeServer sample_deps serverListService ''https://a.example''
      \<lparr>servers = [''https://a.example'', ''https://b.example''], pubkey = ''pk''\<rparr> Nsec start
     = (Inr \<lparr>servers = [''https://b.example''], pubkey = ''pk''\<rparr>,
        snd (removeServer sample_deps serverListService ''https://a.example''
      \<lparr>servers = [''https://a.example'', ''https://b.example''], pubkey = ''pk''\<rparr> Nsec start)) \<and>
   occurs_before is_sign is_publish
     (calls (snd (removeServer sample_deps serverListService ''https://a.example''
      \<lparr>servers = [''https://a.example'', ''https://b.example''], pubkey = ''pk''\<rparr> Nsec start))) \<and>
   hd (calls (snd (removeServer sample_deps serverListService ''https://a.example''
      \<lparr>servers = [''https://a.example'', ''https://b.example''], pubkey = ''pk''\<rparr> Nsec start)))
     = CreateServerListEvent [''https://b.example''] ''pk''
         (Inr \<lparr>kind = 10063, tags = [[''server'', ''https://b.example'']], content = [],
               created_at = 0, author = ''pk''\<rparr>)"
proof -
  let ?L = "\<lparr>servers = [''https://a.example'', ''https://b.example''], pubkey = ''pk''\<rparr>"
  let ?run = "removeServer sample_deps serverListService ''https://a.example'' ?L Nsec start"
  have v: "filter validateServerUrl_spec [''https://b.example''] = [''https://b.example'']"
    using valid_https_b by (simp add: sample_deps_def)
  have eq: "?run = createAndPublishServerList sample_deps serverListService
          [''https://b.example''] ''pk'' Nsec start"
    by (simp add: removeServer_def updateServerList_def)
  with sample_createAndPublish[of "[''https://b.example'']" "''pk''" Nsec]
  have f: "fst ?run = Inr \<lparr>servers = [''https://b.example''], pubkey = ''pk''\<rparr>"
    by (simp only: v) simp
  from eq sample_createAndPublish[of "[''https://b.example'']" "''pk''" Nsec]
  have h: "hd (calls (snd ?run)) = CreateServerListEvent [''https://b.example''] ''pk''
         (Inr \<lparr>kind = 10063, tags = [[''server'', ''https://b.example'']], content = [],
               created_at = 0, author = ''pk''\<rparr>)"
    by (simp only: v) simp
  from f have run: "?run = (Inr \<lparr>servers = [''https://b.example''], pubkey = ''pk''\<rparr>, snd ?run)"
    by (metis prod.collapse)
  from sign_then_publish[where d = sample_deps and this = serverListService
      and u = "''https://a.example''" and L = ?L and m = Nsec and r = start
      and l = "\<lparr>servers = [''https://b.example''], pubkey = ''pk''\<rparr>" and r' = "snd ?run"
      and C = "[]"] run
  have "occurs_before is_sign is_publish (drop (length (calls start)) (calls (snd ?run)))"
    by blast
  then have "occurs_before is_sign is_publish (calls (snd ?run))"
    by (simp add: start_def)
  with run h show ?thesis by blast
qed

subsection \<open>Resolving the server list of an owner\<close>

lemma newest_first_hd:
  assumes "evs \<noteq> []"
  shows "hd (sort_newest_first evs) \<in> set evs \<and>
         (\<forall>e \<in> set evs. created_at e \<le> created_at (hd (sort_newest_first evs)))"
proof -
  let ?f = "\<lambda>e::event. - created_at e"
  let ?s = "sort_key ?f evs"
  from assms have "length ?s \<noteq> 0" by simp
  then obtain x xs where s: "?s = x # xs" by (cases ?s) auto
  have "set ?s = set evs" by simp
  with s have mem: "x \<in> set evs" and sub: "set evs = insert x (set xs)" by auto
  have "sorted (map ?f ?s)" by (rule sorted_sort_key)
  with s have "\<forall>y \<in> set xs. ?f x \<le> ?f y" by simp
  with sub have "\<forall>e \<in> set evs. created_at e \<le> created_at x" by auto
  with mem s show ?thesis by (simp add: sort_newest_first_def)
qed

text \<open>The four ways a run of \<^verbatim>\<open>getUserServerList\<close> can go, with the calls each makes.\<close>

lemma getUserServerList_cases:
  assumes "getUserServerList d this pk r = (res, r')"
  shows
    "(\<exists>e. calls r' = calls r @
          [QueryRelays (priv_defaultRelayUrls this) (server_list_filter pk) (Inl e)] \<and>
        res = None) \<or>
     (\<exists>evs. evs \<noteq> [] \<and>
        calls r' = calls r @
          [QueryRelays (priv_defaultRelayUrls this) (server_list_filter pk) (Inr evs)] \<and>
        res = (case parseServerListEvent d (hd (sort_newest_first evs)) of
                 Inl e \<Rightarrow> None | Inr l \<Rightarrow> Some l)) \<or>
     (\<exists>g. (\<forall>rl. g \<noteq> Inr (Some rl)) \<and>
        calls r' = calls r @
          [QueryRelays (priv_defaultRelayUrls this) (server_list_filter pk) (Inr []),
           GetUserRelayList pk g] \<and>
        res = None) \<or>
     (\<exists>rl q2.
        calls r' = calls r @
          [QueryRelays (priv_defaultRelayUrls this) (server_list_filter pk) (Inr []),
           GetUserRelayList pk (Inr (Some rl)),
           QueryRelays (map fst (relays rl)) (server_list_filter pk) q2] \<and>
        res = (case q2 of Inl e \<Rightarrow> None
               | Inr evs \<Rightarrow> if evs = [] then None
                   else (case parseServerListEvent d (hd (sort_newest_first evs)) of
                           Inl e \<Rightarrow> None | Inr l \<Rightarrow> Some l)))"
proof -
  let ?f = "server_list_filter pk"
  obtain q1 w1 where q1: "queryRelays d (priv_defaultRelayUrls this) ?f (world r) = (q1, w1)"
    by (cases "queryRelays d (priv_defaultRelayUrls this) ?f (world r)")
  show ?thesis
  proof (cases q1)
    case (Inl e)
    with assms q1 show ?thesis
      by (auto simp add: getUserServerList_def await_def)
  next
    case (Inr evs)
    show ?thesis
    proof (cases "evs = []")
      case False
      with assms q1 Inr show ?thesis
        by (auto simp add: getUserServerList_def await_def split: sum.splits)
    next
      case True
      obtain g w2 where g: "getUserRelayList d pk w1 = (g, w2)"
        by (cases "getUserRelayList d pk w1")
      show ?thesis
      proof (cases g)
        case (Inl e)
        with assms q1 Inr True g show ?thesis
          by (auto simp add: getUserServerList_def await_def)
      next
        case gr: (Inr found)
        show ?thesis
        proof (cases found)
          case None
          with assms q1 Inr True g gr show ?thesis
            by (auto simp add: getUserServerList_def await_def)
        next
          case (Some rl)
          obtain q2 w3 where q2: "queryRelays d (map fst (relays rl)) ?f w2 = (q2, w3)"
            by (cases "queryRelays d (map fst (relays rl)) ?f w2")
          with assms q1 Inr True g gr Some
          have "calls r' = calls r @
                  [QueryRelays (priv_defaultRelayUrls this) ?f (Inr []),
                   GetUserRelayList pk (Inr (Some rl)),
                   QueryRelays (map fst (relays rl)) ?f q2] \<and>
                res = (case q2 of Inl e \<Rightarrow> None
                       | Inr evs \<Rightarrow> if evs = [] then None
                           else (case parseServerListEvent d (hd (sort_newest_first evs)) of
                                   Inl e \<Rightarrow> None | Inr l \<Rightarrow> Some l))"
            by (cases q2) (auto simp add: getUserServerList_def await_def split: sum.splits)
          then show ?thesis by blast
        qed
      qed
    qed
  qed
qed


text \<open>
  C2. \<^verbatim>\<open>getUserServerList\<close> (resolve) first queries the default discovery relays.
  It fetches the owner's relay list exactly when that query returned no event, and
  then, if the owner has a relay list, retries the discovery against the relays that
  list declares. A list it returns is parsed from an event of the last query that is
  newest by \<^verbatim>\<open>created_at\<close> among the events found, and whenever the last query
  found events the result is the parse of the first event in newest-first order; it
  returns none when no query of the run returned an event (each attempt rejected, as
  on a timeout, or came back empty).
\<close>

theorem resolve_two_phase:
  assumes "getUserServerList d this pk r = (res, r')"
  shows "(\<exists>res1 rest.
            calls r' = calls r @
              QueryRelays (defaultRelayUrls this) (server_list_filter pk) res1 # rest \<and>
            (rest \<noteq> [] \<longleftrightarrow> res1 = Inr []) \<and>
            (rest \<noteq> [] \<longrightarrow>
               (\<exists>g. rest = [GetUserRelayList pk g] \<and> (\<forall>rl. g \<noteq> Inr (Some rl))) \<or>
               (\<exists>rl res2. rest = [GetUserRelayList pk (Inr (Some rl)),
                   QueryRelays (map fst (relays rl)) (server_list_filter pk) res2]))) \<and>
         (\<forall>l. res = Some l \<longrightarrow>
            (\<exists>urls evs ev.
               last (calls r') = QueryRelays urls (server_list_filter pk) (Inr evs) \<and>
               ev \<in> set evs \<and> (\<forall>e \<in> set evs. created_at e \<le> created_at ev) \<and>
               parseServerListEvent d ev = Inr l)) \<and>
         (\<forall>urls evs. last (calls r') = QueryRelays urls (server_list_filter pk) (Inr evs) \<and>
              evs \<noteq> [] \<longrightarrow>
            res = (case parseServerListEvent d (hd (sort_newest_first evs)) of
                     Inl e \<Rightarrow> None | Inr l \<Rightarrow> Some l)) \<and>
         ((\<forall>urls q evs. QueryRelays urls q (Inr evs) \<in> set (drop (length (calls r)) (calls r'))
             \<longrightarrow> evs = []) \<longrightarrow> res = None)"
proof -
  let ?f = "server_list_filter pk"
  let ?Q1 = "QueryRelays (defaultRelayUrls this) ?f"
  have pick: "\<exists>ev. ev \<in> set evs \<and> (\<forall>e \<in> set evs. created_at e \<le> created_at ev) \<and>
               parseServerListEvent d ev = Inr l"
    if "evs \<noteq> []"
      and "(case parseServerListEvent d (hd (sort_newest_first evs)) of
              Inl e \<Rightarrow> None | Inr l \<Rightarrow> Some l) = Some l"
    for evs l
    using newest_first_hd[OF that(1)] that(2) by (auto split: sum.splits)
  from getUserServerList_cases[OF assms]
  consider
    (rejected) e where "calls r' = calls r @ [?Q1 (Inl e)]" "res = None"
  | (found) evs where "evs \<noteq> []" "calls r' = calls r @ [?Q1 (Inr evs)]"
      "res = (case parseServerListEvent d (hd (sort_newest_first evs)) of
                 Inl e \<Rightarrow> None | Inr l \<Rightarrow> Some l)"
  | (no_relay_list) g where "\<forall>rl. g \<noteq> Inr (Some rl)"
      "calls r' = calls r @ [?Q1 (Inr []), GetUserRelayList pk g]" "res = None"
  | (retried) rl q2 where
      "calls r' = calls r @ [?Q1 (Inr []), GetUserRelayList pk (Inr (Some rl)),
           QueryRelays (map fst (relays rl)) ?f q2]"
      "res = (case q2 of Inl e \<Rightarrow> None
               | Inr evs \<Rightarrow> if evs = [] then None
                   else (case parseServerListEvent d (hd (sort_newest_first evs)) of
                           Inl e \<Rightarrow> None | Inr l \<Rightarrow> Some l))"
    unfolding defaultRelayUrls_def by blast
  then show ?thesis
  proof cases
    case rejected
    then show ?thesis by simp
  next
    case found
    have "\<exists>urls evs' ev.
               last (calls r') = QueryRelays urls ?f (Inr evs') \<and>
               ev \<in> set evs' \<and> (\<forall>e \<in> set evs'. created_at e \<le> created_at ev) \<and>
               parseServerListEvent d ev = Inr l" if "res = Some l" for l
      using pick[OF found(1), of l] found(2,3) that by auto
    moreover have "\<not> (\<forall>urls q evs. QueryRelays urls q (Inr evs)
        \<in> set (drop (length (calls r)) (calls r')) \<longrightarrow> evs = [])"
      using found(1,2) by auto
    moreover have "\<forall>urls evs'. last (calls r') = QueryRelays urls ?f (Inr evs') \<and> evs' \<noteq> [] \<longrightarrow>
            res = (case parseServerListEvent d (hd (sort_newest_first evs')) of
                     Inl e \<Rightarrow> None | Inr l \<Rightarrow> Some l)"
      using found(2,3) by auto
    ultimately show ?thesis using found(2) by auto
  next
    case no_relay_list
    then show ?thesis by simp
  next
    case retried
    have "\<exists>urls evs' ev.
               last (calls r') = QueryRelays urls ?f (Inr evs') \<and>
               ev \<in> set evs' \<and> (\<forall>e \<in> set evs'. created_at e \<le> created_at ev) \<and>
               parseServerListEvent d ev = Inr l" if "res = Some l" for l
    proof -
      from that retried(2) obtain evs where q2: "q2 = Inr evs" and ne: "evs \<noteq> []"
        and p: "(case parseServerListEvent d (hd (sort_newest_first evs)) of
              Inl e \<Rightarrow> None | Inr l \<Rightarrow> Some l) = Some l"
        by (cases q2) (auto split: if_splits)
      from pick[OF ne p] retried(1) q2 show ?thesis by auto
    qed
    moreover have "res = None"
      if "\<forall>urls q evs. QueryRelays urls q (Inr evs)
        \<in> set (drop (length (calls r)) (calls r')) \<longrightarrow> evs = []"
    proof (cases q2)
      case (Inl e)
      with retried(2) show ?thesis by simp
    next
      case (Inr evs)
      with that retried(1) have "evs = []" by auto
      with Inr retried(2) show ?thesis by simp
    qed
    moreover have "\<forall>urls evs'. last (calls r') = QueryRelays urls ?f (Inr evs') \<and> evs' \<noteq> [] \<longrightarrow>
            res = (case parseServerListEvent d (hd (sort_newest_first evs')) of
                     Inl e \<Rightarrow> None | Inr l \<Rightarrow> Some l)"
      using retried by auto
    ultimately show ?thesis using retried(1) by auto
  qed
qed

theorem resolve_two_phase_witness:
  "getUserServerList (owner_deps owner_relays) serverListService ''pk'' start
     = (Some \<lparr>servers = [''https://new.example''], pubkey = ''pk''\<rparr>,
        \<lparr>world = 3, calls =
          [QueryRelays (defaultRelayUrls serverListService) (server_list_filter ''pk'') (Inr []),
           GetUserRelayList ''pk'' (Inr (Some owner_relays)),
           QueryRelays [''wss://write.example'', ''wss://read.example''] (server_list_filter ''pk'')
             (Inr [stored_event 100 ''https://old.example'',
                   stored_event 200 ''https://new.example''])]\<rparr>) \<and>
   (\<exists>urls evs ev.
      last (calls (snd (getUserServerList (owner_deps owner_relays) serverListService ''pk'' start)))
        = QueryRelays urls (server_list_filter ''pk'') (Inr evs) \<and>
      ev \<in> set evs \<and> list_all (\<lambda>e. created_at e \<le> created_at ev) evs \<and>
      parseServerListEvent (owner_deps owner_relays) ev
        = Inr \<lparr>servers = [''https://new.example''], pubkey = ''pk''\<rparr>)"
proof -
  let ?run = "getUserServerList (owner_deps owner_relays) serverListService ''pk'' start"
  have ne: "priv_defaultRelayUrls serverListService \<noteq> map fst (relays owner_relays)"
    by (simp add: serverListService_def owner_relays_def)
  have keys: "map fst (relays owner_relays) = [''wss://write.example'', ''wss://read.example'']"
    by (simp add: owner_relays_def)
  have srt: "hd (sort_newest_first [stored_event 100 ''https://old.example'',
                   stored_event 200 ''https://new.example'']) = stored_event 200 ''https://new.example''"
    by (simp add: sort_newest_first_def stored_event_def)
  have run: "?run = (Some \<lparr>servers = [''https://new.example''], pubkey = ''pk''\<rparr>,
        \<lparr>world = 3, calls =
          [QueryRelays (defaultRelayUrls serverListService) (server_list_filter ''pk'') (Inr []),
           GetUserRelayList ''pk'' (Inr (Some owner_relays)),
           QueryRelays [''wss://write.example'', ''wss://read.example''] (server_list_filter ''pk'')
             (Inr [stored_event 100 ''https://old.example'',
                   stored_event 200 ''https://new.example''])]\<rparr>)"
    using ne
    by (simp add: getUserServerList_def await_def owner_deps_def sample_deps_def start_def
        defaultRelayUrls_def keys srt parseServerListEvent_spec_def)
       (simp add: stored_event_def)
  from resolve_two_phase[OF run]
  obtain urls evs ev where
    "last (calls (snd ?run)) = QueryRelays urls (server_list_filter ''pk'') (Inr evs)"
    "ev \<in> set evs" "\<forall>e \<in> set evs. created_at e \<le> created_at ev"
    "parseServerListEvent (owner_deps owner_relays) ev
        = Inr \<lparr>servers = [''https://new.example''], pubkey = ''pk''\<rparr>"
    unfolding run snd_conv by blast
  then have "\<exists>urls evs ev.
      last (calls (snd ?run)) = QueryRelays urls (server_list_filter ''pk'') (Inr evs) \<and>
      ev \<in> set evs \<and> list_all (\<lambda>e. created_at e \<le> created_at ev) evs \<and>
      parseServerListEvent (owner_deps owner_relays) ev
        = Inr \<lparr>servers = [''https://new.example''], pubkey = ''pk''\<rparr>"
    unfolding list_all_iff by blast
  with run show ?thesis by blast
qed

subsection \<open>The relays the list is published to\<close>

text \<open>
  C6, as the claim states it, fails: for an owner whose relay list declares no
  writable relay the derived relays are none, yet the list is published to the
  default relays, none of which the owner's list flags as writable.
\<close>

theorem write_relays_counterexample:
  "writeRelays read_only_relays = [] \<and>
   fst (setPublishRelaysFromUserList (owner_deps read_only_relays) serverListService ''pk'' start)
     = (False, serverListService) \<and>
   publishRelayUrls (snd (fst (setPublishRelaysFromUserList (owner_deps read_only_relays)
        serverListService ''pk'' start)))
     = [''wss://relay.damus.io'', ''wss://relay.nostr.band'', ''wss://relay.primal.net'',
        ''wss://relay.snort.social'', ''wss://nos.lol'', ''wss://nostr.oxtr.dev'']"
  by (simp add: writeRelays_def read_only_relays_def setPublishRelaysFromUserList_def await_def
      owner_deps_def sample_deps_def start_def publishRelayUrls_def serverListService_def)

text \<open>
  C6, amended. For every owner relay list in which at least one relay has a
  \<^verbatim>\<open>write\<close> flag that is not false, \<^verbatim>\<open>setPublishRelaysFromUserList\<close> returns true
  and the relays used to persist the server list become exactly the relays of that
  list whose \<^verbatim>\<open>write\<close> flag is not false, in the order of the list; relays flagged
  \<^verbatim>\<open>write: false\<close> are excluded. When no relay qualifies, when the owner has no
  relay list, or when the lookup rejects, it returns false and leaves the service, and
  so the publish relays, as they were.
\<close>

theorem write_relays_become_publish_relays:
  assumes "setPublishRelaysFromUserList d this pk r = ((ok, this'), r')"
  shows "\<exists>g. calls r' = calls r @ [GetUserRelayList pk g] \<and>
           (ok \<longrightarrow> (\<exists>rl. g = Inr (Some rl) \<and> writeRelays rl \<noteq> [] \<and>
                      publishRelayUrls this' = writeRelays rl \<and>
                      (\<forall>url. url \<in> set (publishRelayUrls this') \<longleftrightarrow>
                         (\<exists>metadata. (url, metadata) \<in> set (relays rl) \<and>
                            write_flag metadata \<noteq> Some False)))) \<and>
           (\<not> ok \<longrightarrow> this' = this \<and> (\<forall>rl. g = Inr (Some rl) \<longrightarrow> writeRelays rl = []))"
proof -
  obtain g w1 where g: "getUserRelayList d pk (world r) = (g, w1)"
    by (cases "getUserRelayList d pk (world r)")
  have mem: "url \<in> set (writeRelays rl) \<longleftrightarrow>
      (\<exists>metadata. (url, metadata) \<in> set (relays rl) \<and> write_flag metadata \<noteq> Some False)"
    for url rl
    by (auto simp add: writeRelays_def image_iff)
  have pub: "publishRelayUrls (setPublishRelayUrls ws this) = ws" if "ws \<noteq> []" for ws
    using that by (simp add: publishRelayUrls_def setPublishRelayUrls_def)
  have cs: "calls r' = calls r @ [GetUserRelayList pk g]"
    using assms g
    by (auto simp add: setPublishRelaysFromUserList_def await_def
        split: sum.splits option.splits if_splits)
  have yes: "\<exists>rl. g = Inr (Some rl) \<and> writeRelays rl \<noteq> [] \<and>
                      publishRelayUrls this' = writeRelays rl \<and>
                      (\<forall>url. url \<in> set (publishRelayUrls this') \<longleftrightarrow>
                         (\<exists>metadata. (url, metadata) \<in> set (relays rl) \<and>
                            write_flag metadata \<noteq> Some False))" if ok
  proof -
    from that assms g obtain rl where rl: "g = Inr (Some rl)" and ne: "writeRelays rl \<noteq> []"
      and t: "this' = setPublishRelayUrls (writeRelays rl) this"
      by (auto simp add: setPublishRelaysFromUserList_def await_def
          split: sum.splits option.splits if_splits)
    from pub[OF ne] t have "publishRelayUrls this' = writeRelays rl" by simp
    with rl ne mem show ?thesis by simp
  qed
  have no: "this' = this \<and> (\<forall>rl. g = Inr (Some rl) \<longrightarrow> writeRelays rl = [])" if "\<not> ok"
    using that assms g
    by (auto simp add: setPublishRelaysFromUserList_def await_def
        split: sum.splits option.splits if_splits)
  from cs yes no show ?thesis by blast
qed

theorem write_relays_become_publish_relays_witness:
  "setPublishRelaysFromUserList (owner_deps owner_relays) serverListService ''pk'' start
     = ((True, setPublishRelayUrls [''wss://write.example''] serverListService),
        \<lparr>world = 1, calls = [GetUserRelayList ''pk'' (Inr (Some owner_relays))]\<rparr>) \<and>
   writeRelays owner_relays = [''wss://write.example''] \<and>
   publishRelayUrls (setPublishRelayUrls [''wss://write.example''] serverListService)
     = [''wss://write.example'']"
proof -
  have w: "writeRelays owner_relays = [''wss://write.example'']"
    by (simp add: writeRelays_def owner_relays_def)
  have run: "setPublishRelaysFromUserList (owner_deps owner_relays) serverListService ''pk'' start
     = ((True, setPublishRelayUrls [''wss://write.example''] serverListService),
        \<lparr>world = 1, calls = [GetUserRelayList ''pk'' (Inr (Some owner_relays))]\<rparr>)"
    by (simp add: setPublishRelaysFromUserList_def await_def owner_deps_def sample_deps_def
        start_def w)
  from write_relays_become_publish_relays[OF run] w
  have "publishRelayUrls (setPublishRelayUrls [''wss://write.example''] serverListService)
     = [''wss://write.example'']"
    by auto
  with run w show ?thesis by blast
qed

section \<open>Properties of the components\<close>

subsection \<open>Upload without servers\<close>

text \<open>
  C7, as the claim states it, fails: with an empty server list the upload of a file
  does fail without a network call, but not always with the no-servers error. A user
  without a signing method gets the login error, and a file that the validator
  rejects gets the validation error, both before the server list is looked at.
\<close>

theorem upload_no_servers_counterexample:
  "no_servers (Some empty_list) \<and>
   uploadToPrimaryServer logged_out_ui (Some empty_list) picture
     = (Inl (Error ''No signing method available. Please login again.''), []) \<and>
   uploadToPrimaryServer sample_ui (Some empty_list) unnamed_picture
     = (Inl (Error ''No file selected''), [])"
  by (simp add: uploadToPrimaryServer_def no_servers_def empty_list_def logged_out_ui_def
      sample_ui_def picture_def unnamed_picture_def validation_message_def)

text \<open>
  C7, amended. For every file and every server list whose servers sequence is empty
  or absent, the upload fails and makes no network call before failing. The checks
  run in this order and the first that fails gives the error: without a signing
  method the login error; for a file that the validator rejects the validation
  message; for an image whose EXIF removal fails, the cancellation error when the
  user declines to go on and the processing error when the failure is of another
  kind; and only when all of these pass (the EXIF removal succeeds, or the user
  confirms to go on without it) the no-servers-configured error.
\<close>

theorem upload_without_servers_fails:
  assumes "no_servers userServerList"
  shows "isl (fst (uploadToPrimaryServer env userServerList file)) \<and>
         \<not> list_ex is_network_call (snd (uploadToPrimaryServer env userServerList file)) \<and>
         (getSigningMethod env = None \<longrightarrow>
            uploadToPrimaryServer env userServerList file
              = (Inl (Error ''No signing method available. Please login again.''), [])) \<and>
         (getSigningMethod env \<noteq> None \<and> \<not> valid (validateFile env file) \<longrightarrow>
            uploadToPrimaryServer env userServerList file
              = (Inl (Error (validation_message (validateFile env file))), [])) \<and>
         (getSigningMethod env \<noteq> None \<and> valid (validateFile env file) \<and>
          take 6 (type file) = ''image/'' \<and>
          (\<exists>msg. removeExifData env file = Inl (ExifRemovalError msg)) \<and> \<not> confirm env \<longrightarrow>
            uploadToPrimaryServer env userServerList file
              = (Inl (Error ''Upload cancelled due to privacy concerns. Please choose a different image.''),
                 [RemoveExifData file, Confirm])) \<and>
         (getSigningMethod env \<noteq> None \<and> valid (validateFile env file) \<and>
          take 6 (type file) = ''image/'' \<and> removeExifData env file = Inl OtherFailure \<longrightarrow>
            uploadToPrimaryServer env userServerList file
              = (Inl (Error ''Failed to process image''), [RemoveExifData file])) \<and>
         (getSigningMethod env \<noteq> None \<and> valid (validateFile env file) \<and>
          (take 6 (type file) = ''image/'' \<longrightarrow>
             (\<exists>stripped. removeExifData env file = Inr stripped) \<or>
             ((\<exists>msg. removeExifData env file = Inl (ExifRemovalError msg)) \<and> confirm env))
          \<longrightarrow> fst (uploadToPrimaryServer env userServerList file)
                = Inl (Error ''No Blossom servers configured. Please configure your servers in Settings first.''))"
proof (cases "getSigningMethod env")
  case None
  then show ?thesis by (simp add: uploadToPrimaryServer_def)
next
  case (Some signingMethod)
  show ?thesis
  proof (cases "valid (validateFile env file)")
    case False
    with Some show ?thesis by (simp add: uploadToPrimaryServer_def)
  next
    case True
    show ?thesis
    proof (cases "take 6 (type file) = ''image/''")
      case False
      with Some True assms show ?thesis by (simp add: uploadToPrimaryServer_def)
    next
      case image: True
      show ?thesis
      proof (cases "removeExifData env file")
        case (Inr stripped)
        with Some True image assms show ?thesis by (simp add: uploadToPrimaryServer_def)
      next
        case (Inl failure)
        show ?thesis
        proof (cases failure)
          case OtherFailure
          with Some True image assms Inl show ?thesis by (simp add: uploadToPrimaryServer_def)
        next
          case (ExifRemovalError msg)
          with Some True image assms Inl show ?thesis
            by (cases "confirm env") (simp_all add: uploadToPrimaryServer_def)
        qed
      qed
    qed
  qed
qed

theorem upload_without_servers_fails_witness:
  "no_servers (Some empty_list) \<and> no_servers None \<and>
   uploadToPrimaryServer sample_ui (Some empty_list) picture
     = (Inl (Error ''No Blossom servers configured. Please configure your servers in Settings first.''),
        [RemoveExifData picture]) \<and>
   fst (uploadToPrimaryServer sample_ui None picture)
     = Inl (Error ''No Blossom servers configured. Please configure your servers in Settings first.'') \<and>
   uploadToPrimaryServer logged_out_ui (Some empty_list) picture
     = (Inl (Error ''No signing method available. Please login again.''), []) \<and>
   uploadToPrimaryServer sample_ui (Some empty_list) unnamed_picture
     = (Inl (Error ''No file selected''), []) \<and>
   uploadToPrimaryServer sample_ui (Some one_server) picture
     = (Inr ''https://a.example/blob'',
        [RemoveExifData picture,
         UploadFile ''https://a.example'' picture Nsec (Inr ''https://a.example/blob'')])"
proof -
  have n: "no_servers (Some empty_list)" "no_servers None"
    by (simp_all add: no_servers_def empty_list_def)
  have pre: "getSigningMethod sample_ui \<noteq> None" "valid (validateFile sample_ui picture)"
    "removeExifData sample_ui picture = Inr picture"
    by (simp_all add: sample_ui_def picture_def)
  from upload_without_servers_fails[OF n(2), of sample_ui picture] pre
  have absent: "fst (uploadToPrimaryServer sample_ui None picture)
     = Inl (Error ''No Blossom servers configured. Please configure your servers in Settings first.'')"
    by blast
  have out: "getSigningMethod logged_out_ui = None"
    by (simp add: logged_out_ui_def sample_ui_def)
  from upload_without_servers_fails[OF n(1), of logged_out_ui picture] out
  have login: "uploadToPrimaryServer logged_out_ui (Some empty_list) picture
     = (Inl (Error ''No signing method available. Please login again.''), [])"
    by blast
  have rej: "getSigningMethod sample_ui \<noteq> None" "\<not> valid (validateFile sample_ui unnamed_picture)"
    "validation_message (validateFile sample_ui unnamed_picture) = ''No file selected''"
    by (simp_all add: sample_ui_def unnamed_picture_def validation_message_def)
  from upload_without_servers_fails[OF n(1), of sample_ui unnamed_picture] rej(1,2)
  have "uploadToPrimaryServer sample_ui (Some empty_list) unnamed_picture
     = (Inl (Error (validation_message (validateFile sample_ui unnamed_picture))), [])"
    by blast
  with rej(3) have invalid: "uploadToPrimaryServer sample_ui (Some empty_list) unnamed_picture
     = (Inl (Error ''No file selected''), [])"
    by simp
  have empty: "uploadToPrimaryServer sample_ui (Some empty_list) picture
     = (Inl (Error ''No Blossom servers configured. Please configure your servers in Settings first.''),
        [RemoveExifData picture])"
    using n(1) by (simp add: uploadToPrimaryServer_def sample_ui_def picture_def)
  have one: "uploadToPrimaryServer sample_ui (Some one_server) picture
     = (Inr ''https://a.example/blob'',
        [RemoveExifData picture,
         UploadFile ''https://a.example'' picture Nsec (Inr ''https://a.example/blob'')])"
    by (simp add: uploadToPrimaryServer_def sample_ui_def picture_def no_servers_def one_server_def
        Let_def)
  from n absent login invalid empty one show ?thesis by blast
qed

subsection \<open>Deleting a cached blob\<close>

lemma removeMedia_removes: "h \<notin> sha256 ` set (removeMedia h media)"
  by (auto simp add: removeMedia_def)

lemma find_cached:
  "h \<in> sha256 ` set media \<Longrightarrow> \<exists>item. find (\<lambda>item. sha256 item = h) media = Some item"
  by (cases "find (\<lambda>item. sha256 item = h) media") (auto simp add: find_None_iff)

lemma deleteMedia_cases:
  assumes "confirm env" and "getSigningMethod env = Some m" and "h \<in> sha256 ` set media"
  shows "deleteMedia env userServerList h media
           = (removeMedia h media, [Confirm, RemoveMedia h, DeleteBlobWithFallback h m (Inr ())]) \<or>
         (\<exists>failed msg.
            (failed = [] \<or> (\<exists>e. failed = [DeleteBlobWithFallback h m (Inl e)])) \<and>
            deleteMedia env userServerList h media
              = (fetchMedia env userServerList True (removeMedia h media),
                 [Confirm, RemoveMedia h] @ failed @
                 [FetchMedia userServerList True, Alert (''Failed to delete file: '' @ msg)]))"
proof -
  from find_cached[OF assms(3)] obtain item
    where item: "find (\<lambda>item. sha256 item = h) media = Some item" by blast
  show ?thesis
  proof (cases "no_servers userServerList")
    case True
    with assms(1,2) item show ?thesis
      by (simp add: deleteMedia_def loadMedia_def)
  next
    case False
    show ?thesis
    proof (cases "hostname env (hd (servers (the userServerList)))")
      case (Inl err)
      with assms(1,2) item False show ?thesis
        by (cases err) (simp add: deleteMedia_def loadMedia_def)
    next
      case (Inr host)
      show ?thesis
      proof (cases "deleteBlobWithFallback env (the userServerList) h m")
        case del: (Inl err)
        with assms(1,2) item False Inr show ?thesis
          by (cases err) (simp add: deleteMedia_def loadMedia_def Let_def)
      next
        case del: (Inr u)
        with assms(1,2) item False Inr show ?thesis
          by (simp add: deleteMedia_def loadMedia_def Let_def)
      qed
    qed
  qed
qed

text \<open>
  C8. When the user confirms the deletion of a cached blob \<open>h\<close> and a signing method
  is available, \<^verbatim>\<open>deleteMedia\<close> removes \<open>h\<close> from the cached media first, before the
  remote delete is sent and so before it is confirmed. If the remote delete succeeds
  the cache is left as the removal made it, without \<open>h\<close>, and nothing refreshes it. If
  the remote delete fails (or cannot be sent), the caller forces a refresh of the
  cache after the failure. Removal leaves no entry for \<open>h\<close>, and the cache holds \<open>h\<close>
  afterwards only if such a forced refresh has run.
\<close>

theorem delete_is_optimistic:
  assumes "confirm env" and "getSigningMethod env = Some m" and "h \<in> sha256 ` set media"
  shows "(\<exists>rest. snd (deleteMedia env userServerList h media) = [Confirm, RemoveMedia h] @ rest \<and>
            \<not> list_ex is_forced_refresh [Confirm, RemoveMedia h] \<and>
            (rest = [DeleteBlobWithFallback h m (Inr ())] \<and>
               fst (deleteMedia env userServerList h media) = removeMedia h media \<or>
             (\<exists>failed msg.
                (failed = [] \<or> (\<exists>e. failed = [DeleteBlobWithFallback h m (Inl e)])) \<and>
                rest = failed @ [FetchMedia userServerList True,
                                 Alert (''Failed to delete file: '' @ msg)] \<and>
                fst (deleteMedia env userServerList h media)
                  = fetchMedia env userServerList True (removeMedia h media)))) \<and>
         h \<notin> sha256 ` set (removeMedia h media) \<and>
         (h \<in> sha256 ` set (fst (deleteMedia env userServerList h media)) \<longrightarrow>
            list_ex is_forced_refresh (snd (deleteMedia env userServerList h media)))"
proof -
  from deleteMedia_cases[OF assms, of userServerList]
  consider
    (deleted) "deleteMedia env userServerList h media
           = (removeMedia h media, [Confirm, RemoveMedia h, DeleteBlobWithFallback h m (Inr ())])"
  | (failed) failed msg where
      "failed = [] \<or> (\<exists>e. failed = [DeleteBlobWithFallback h m (Inl e)])"
      "deleteMedia env userServerList h media
              = (fetchMedia env userServerList True (removeMedia h media),
                 [Confirm, RemoveMedia h] @ failed @
                 [FetchMedia userServerList True, Alert (''Failed to delete file: '' @ msg)])"
    by blast
  then show ?thesis
  proof cases
    case deleted
    then show ?thesis using removeMedia_removes[of h media] by simp
  next
    case failed
    from failed(2) have "list_ex is_forced_refresh (snd (deleteMedia env userServerList h media))"
      by (simp add: list_ex_iff)
    moreover from failed have "\<exists>rest. snd (deleteMedia env userServerList h media) = [Confirm, RemoveMedia h] @ rest \<and>
            \<not> list_ex is_forced_refresh [Confirm, RemoveMedia h] \<and>
            (rest = [DeleteBlobWithFallback h m (Inr ())] \<and>
               fst (deleteMedia env userServerList h media) = removeMedia h media \<or>
             (\<exists>failed msg.
                (failed = [] \<or> (\<exists>e. failed = [DeleteBlobWithFallback h m (Inl e)])) \<and>
                rest = failed @ [FetchMedia userServerList True,
                                 Alert (''Failed to delete file: '' @ msg)] \<and>
                fst (deleteMedia env userServerList h media)
                  = fetchMedia env userServerList True (removeMedia h media)))"
      by auto
    ultimately show ?thesis using removeMedia_removes[of h media] by blast
  qed
qed

theorem delete_is_optimistic_witness:
  "confirm failing_delete_ui \<and> getSigningMethod failing_delete_ui = Some Nsec \<and>
   ''abc'' \<in> sha256 ` set server_side_media \<and>
   deleteMedia failing_delete_ui (Some one_server) ''abc'' server_side_media
     = (server_side_media,
        [Confirm, RemoveMedia ''abc'',
         DeleteBlobWithFallback ''abc'' Nsec (Inl (Error ''All servers failed'')),
         FetchMedia (Some one_server) True,
         Alert ''Failed to delete file: All servers failed'']) \<and>
   deleteMedia sample_ui (Some one_server) ''abc'' server_side_media
     = ([\<lparr>sha256 = ''def''\<rparr>],
        [Confirm, RemoveMedia ''abc'', DeleteBlobWithFallback ''abc'' Nsec (Inr ())]) \<and>
   list_ex is_forced_refresh
     (snd (deleteMedia failing_delete_ui (Some one_server) ''abc'' server_side_media))"
proof -
  have pre: "confirm failing_delete_ui" "getSigningMethod failing_delete_ui = Some Nsec"
    "''abc'' \<in> sha256 ` set server_side_media"
    by (simp_all add: failing_delete_ui_def sample_ui_def server_side_media_def)
  have bad: "deleteMedia failing_delete_ui (Some one_server) ''abc'' server_side_media
     = (server_side_media,
        [Confirm, RemoveMedia ''abc'',
         DeleteBlobWithFallback ''abc'' Nsec (Inl (Error ''All servers failed'')),
         FetchMedia (Some one_server) True,
         Alert ''Failed to delete file: All servers failed''])"
    by (simp add: deleteMedia_def loadMedia_def removeMedia_def failing_delete_ui_def
        sample_ui_def no_servers_def one_server_def Let_def server_side_media_def)
  have good: "deleteMedia sample_ui (Some one_server) ''abc'' server_side_media
     = ([\<lparr>sha256 = ''def''\<rparr>],
        [Confirm, RemoveMedia ''abc'', DeleteBlobWithFallback ''abc'' Nsec (Inr ())])"
    by (simp add: deleteMedia_def removeMedia_def sample_ui_def no_servers_def one_server_def
        Let_def server_side_media_def)
  from bad pre(3) have "''abc'' \<in> sha256 ` set (fst (deleteMedia failing_delete_ui
       (Some one_server) ''abc'' server_side_media))"
    by simp
  with delete_is_optimistic[OF pre, of "Some one_server"]
  have "list_ex is_forced_refresh
     (snd (deleteMedia failing_delete_ui (Some one_server) ''abc'' server_side_media))"
    by blast
  with pre bad good show ?thesis by blast
qed

end
